theory Spec2Isabelle
  imports
    Complex_Main
    "HOL-Library.Multiset"
    "HOL-Library.List_Lexorder"
    "HOL-Library.Char_ord"
    "HOL-Library.Product_Lexorder"
begin

section \<open>The summary repository (storage/repository.py)\<close>

text \<open>
  The repository keeps two SQLite tables, \<open>summaries\<close> and \<open>products\<close>. Every SQL
  statement of the source is embedded as a function on the table contents; the Python
  methods are embedded as functions that open a connection on a store, run those
  statements in the order of the source and leave the store that the connection's
  context manager commits or rolls back to.

  Columns of type TEXT are strings compared bytewise (SQLite's BINARY collation, here the
  lexicographic order on \<open>char list\<close>), REAL columns are \<open>real\<close>, INTEGER columns
  are \<open>int\<close>. Only comparison is ever applied to a REAL value. A Python \<open>float\<close>
  handed to the driver is a number or NaN (\<open>py_float\<close>; the two infinities, which are
  stored and read back like numbers, are not represented), a Python \<open>int\<close> is
  unbounded.
\<close>

subsection \<open>Input objects\<close>

text \<open>
  Modelled from the spec: the classes \<open>DashboardSummary\<close> and \<open>ProductPerformance\<close>
  of \<open>metrics.calculations\<close>, and the class of \<open>summary.totals\<close>, are imported but
  not among the sources. Their fields are the attributes \<open>save_summary\<close> reads, typed
  as the data model describes them (and as \<open>StoredProduct\<close> and \<open>StoredSummary\<close>
  type the corresponding columns). \<open>start\<close> and \<open>end\<close> are \<open>datetime.date\<close>
  values.
\<close>

record date =
  d_year :: nat
  d_month :: nat
  d_day :: nat

datatype py_float = NaN | Num real

record ProductPerformance =
  pp_asin :: string
  pp_title :: string
  pp_revenue :: py_float
  pp_units :: int
  pp_sessions :: int
  pp_conversion_rate :: py_float
  pp_refunds :: int
  pp_buy_box_percentage :: "py_float option"

record SummaryTotals =
  t_total_revenue :: py_float
  t_total_units :: int
  t_total_sessions :: int
  t_conversion_rate :: py_float
  t_refund_rate :: py_float

record DashboardSummary =
  ds_start :: date
  ds_end :: date
  ds_source_name :: string
  ds_totals :: SummaryTotals
  ds_top_products :: "ProductPerformance list"

text \<open>\<open>date.isoformat()\<close>: \<open>YYYY-MM-DD\<close>, zero padded.\<close>

definition digit_char :: "nat \<Rightarrow> char" where
  "digit_char n = ''0123456789'' ! (n mod 10)"

definition isoformat :: "date \<Rightarrow> string" where
  "isoformat d =
     [digit_char (d_year d div 1000), digit_char (d_year d div 100),
      digit_char (d_year d div 10), digit_char (d_year d)] @ ''-'' @
     [digit_char (d_month d div 10), digit_char (d_month d)] @ ''-'' @
     [digit_char (d_day d div 10), digit_char (d_day d)]"

subsection \<open>Result objects\<close>

record StoredProduct =
  sp_asin :: string
  sp_title :: string
  sp_revenue :: real
  sp_units :: int
  sp_sessions :: int
  sp_conversion_rate :: real
  sp_refunds :: int
  sp_buy_box_percentage :: "real option"

record StoredSummary =
  ss_id :: int
  ss_start :: string
  ss_end :: string
  ss_source :: string
  ss_total_revenue :: real
  ss_total_units :: int
  ss_total_sessions :: int
  ss_conversion_rate :: real
  ss_refund_rate :: real
  ss_created_at :: string
  ss_products :: "StoredProduct list"

subsection \<open>Tables and store\<close>

text \<open>One record per table, one field per column of the CREATE TABLE statements.\<close>

record summaries_row =
  s_id :: int
  s_start_date :: string
  s_end_date :: string
  s_source :: string
  s_total_revenue :: real
  s_total_units :: int
  s_total_sessions :: int
  s_conversion_rate :: real
  s_refund_rate :: real
  s_created_at :: string

record products_row =
  p_id :: int
  p_summary_id :: int
  p_asin :: string
  p_title :: string
  p_revenue :: real
  p_units :: int
  p_sessions :: int
  p_conversion_rate :: real
  p_refunds :: int
  p_buy_box_percentage :: "real option"

text \<open>
  The store is what lies at \<open>db_path\<close>: whether the parent directory exists, and the
  database. A table that was never created is \<open>None\<close>; rows are kept in the order of
  insertion. \<open>seq_summaries\<close> and \<open>seq_products\<close> are the entries of
  \<open>sqlite_sequence\<close> that AUTOINCREMENT maintains (the largest key ever handed out).
  \<open>products_on_delete\<close> is what the stored definition of the products table says
  its foreign key does when the header it refers to is deleted; it is written when the
  table is created and means nothing while there is no table.
\<close>

datatype fk_action = NoAction | Cascade

record store =
  parent_exists :: bool
  summaries :: "summaries_row list option"
  products :: "products_row list option"
  seq_summaries :: int
  seq_products :: int
  products_on_delete :: fk_action

datatype error = OSError | OperationalError | IntegrityError | OverflowError

subsection \<open>Binding parameters\<close>

text \<open>
  What the \<open>sqlite3\<close> driver does with the Python values of a parameter tuple: an
  \<open>int\<close> is bound as a signed 64-bit integer, and one that does not fit is refused with
  \<open>OverflowError\<close>; a \<open>float\<close> is bound as a REAL, except NaN, which SQLite does not
  have and takes as NULL; \<open>None\<close> is NULL; a \<open>str\<close> is bound as it is.
\<close>

definition bind_int :: "int \<Rightarrow> error + int" where
  "bind_int n =
     (if - 9223372036854775808 \<le> n \<and> n \<le> 9223372036854775807 then Inr n
      else Inl OverflowError)"

definition bind_float :: "py_float \<Rightarrow> real option" where
  "bind_float x = (case x of NaN \<Rightarrow> None | Num r \<Rightarrow> Some r)"

text \<open>
  The parameter tuples of the two INSERT statements: as Python builds them
  (\<open>_values\<close>), as they are bound (\<open>_bound\<close>, a REAL may be NULL), and as the
  columns hold them (\<open>_params\<close>).
\<close>

type_synonym summaries_values =
  "string \<times> string \<times> string \<times> py_float \<times> int \<times> int \<times> py_float \<times> py_float \<times> string"

type_synonym summaries_bound =
  "string \<times> string \<times> string \<times> real option \<times> int \<times> int \<times> real option \<times> real option \<times>
   string"

type_synonym summaries_params =
  "string \<times> string \<times> string \<times> real \<times> int \<times> int \<times> real \<times> real \<times> string"

type_synonym products_values =
  "int \<times> string \<times> string \<times> py_float \<times> int \<times> int \<times> py_float \<times> int \<times> py_float option"

type_synonym products_bound =
  "int \<times> string \<times> string \<times> real option \<times> int \<times> int \<times> real option \<times> int \<times> real option"

type_synonym products_params =
  "int \<times> string \<times> string \<times> real \<times> int \<times> int \<times> real \<times> int \<times> real option"

fun bind_summaries :: "summaries_values \<Rightarrow> error + summaries_bound" where
  "bind_summaries
     (start_date, end_date, source, total_revenue, total_units, total_sessions,
      conversion_rate, refund_rate, created_at) =
     (case bind_int total_units of
        Inl e \<Rightarrow> Inl e
      | Inr units \<Rightarrow>
          (case bind_int total_sessions of
             Inl e \<Rightarrow> Inl e
           | Inr sessions \<Rightarrow>
               Inr (start_date, end_date, source, bind_float total_revenue, units, sessions,
                    bind_float conversion_rate, bind_float refund_rate, created_at)))"

fun bind_products :: "products_values \<Rightarrow> error + products_bound" where
  "bind_products
     (summary_id, asin, title, revenue, units, sessions, conversion_rate, refunds,
      buy_box_percentage) =
     (case bind_int summary_id of
        Inl e \<Rightarrow> Inl e
      | Inr summary_id' \<Rightarrow>
          (case bind_int units of
             Inl e \<Rightarrow> Inl e
           | Inr units' \<Rightarrow>
               (case bind_int sessions of
                  Inl e \<Rightarrow> Inl e
                | Inr sessions' \<Rightarrow>
                    (case bind_int refunds of
                       Inl e \<Rightarrow> Inl e
                     | Inr refunds' \<Rightarrow>
                         Inr (summary_id', asin, title, bind_float revenue, units', sessions',
                              bind_float conversion_rate, refunds',
                              (case buy_box_percentage of
                                 None \<Rightarrow> None
                               | Some x \<Rightarrow> bind_float x))))))"

subsection \<open>Connections and transactions\<close>

text \<open>
  A connection sees \<open>view\<close>; \<open>db_file\<close> is what has been committed. Python's
  \<open>sqlite3\<close> opens a transaction implicitly before an INSERT and leaves committing to
  the caller; the \<open>with\<close> block commits when its body returns and rolls back when it
  raises. \<open>write_budget\<close> is the number of row insertions the engine still completes
  before it reports a failure of its own (disk full, I/O error, lock); \<open>None\<close> is an
  engine that never fails.
\<close>

record connection =
  db_file :: store
  view :: store
  in_transaction :: bool
  foreign_keys :: bool
  write_budget :: "nat option"

definition connect :: "nat option \<Rightarrow> store \<Rightarrow> error + connection" where
  "connect budget st =
     (if parent_exists st
      then Inr \<lparr>db_file = st, view = st, in_transaction = False,
                foreign_keys = False, write_budget = budget\<rparr>
      else Inl OperationalError)"

definition commit :: "connection \<Rightarrow> connection" where
  "commit c = (if in_transaction c then c\<lparr>db_file := view c, in_transaction := False\<rparr> else c)"

definition rollback :: "connection \<Rightarrow> connection" where
  "rollback c = (if in_transaction c then c\<lparr>view := db_file c, in_transaction := False\<rparr> else c)"

text \<open>\<open>with sqlite3.connect(db_path) as conn: body\<close>\<close>

definition with_connection ::
  "nat option \<Rightarrow> store \<Rightarrow> (connection \<Rightarrow> (error + 'a) \<times> connection) \<Rightarrow> (error + 'a) \<times> store" where
  "with_connection budget st body =
     (case connect budget st of
        Inl e \<Rightarrow> (Inl e, st)
      | Inr conn \<Rightarrow>
          (case body conn of
             (Inl e, conn') \<Rightarrow> (Inl e, db_file (rollback conn'))
           | (Inr r, conn') \<Rightarrow> (Inr r, db_file (commit conn'))))"

text \<open>\<open>PRAGMA foreign_keys = ON\<close> is ignored inside a transaction.\<close>

definition pragma_foreign_keys_on :: "connection \<Rightarrow> connection" where
  "pragma_foreign_keys_on c = (if in_transaction c then c else c\<lparr>foreign_keys := True\<rparr>)"

definition spend :: "connection \<Rightarrow> error + connection" where
  "spend c =
     (case write_budget c of
        None \<Rightarrow> Inr c
      | Some 0 \<Rightarrow> Inl OperationalError
      | Some (Suc n) \<Rightarrow> Inr (c\<lparr>write_budget := Some n\<rparr>))"

text \<open>
  One execution of an INSERT statement: the implicit BEGIN, then the statement on the
  connection's view. A statement that fails changes nothing (statement-level abort) and
  leaves the transaction open. (A statement on a missing table fails before the BEGIN;
  the rollback that follows leaves the same store.)
\<close>

definition execute_write ::
  "(bool \<Rightarrow> store \<Rightarrow> error + 'a \<times> store) \<Rightarrow> connection \<Rightarrow> (error + 'a) \<times> connection" where
  "execute_write stmt c =
     (let c1 = c\<lparr>in_transaction := True\<rparr> in
      case spend c1 of
        Inl e \<Rightarrow> (Inl e, c1)
      | Inr c2 \<Rightarrow>
          (case stmt (foreign_keys c2) (view c2) of
             Inl e \<Rightarrow> (Inl e, c2)
           | Inr (r, v) \<Rightarrow> (Inr r, c2\<lparr>view := v\<rparr>)))"

text \<open>
  The same with a parameter tuple: the tuple is bound after the BEGIN and before the
  statement runs, and a tuple that cannot be bound raises without running it.
\<close>

definition execute_bound ::
  "(error + 'p) \<Rightarrow> ('p \<Rightarrow> bool \<Rightarrow> store \<Rightarrow> error + 'a \<times> store) \<Rightarrow> connection \<Rightarrow>
   (error + 'a) \<times> connection" where
  "execute_bound bound stmt c =
     (case bound of
        Inl e \<Rightarrow> (Inl e, c\<lparr>in_transaction := True\<rparr>)
      | Inr params \<Rightarrow> execute_write (stmt params) c)"

definition execute_select ::
  "(store \<Rightarrow> error + 'a) \<Rightarrow> connection \<Rightarrow> (error + 'a) \<times> connection" where
  "execute_select query c = (query (view c), c)"

text \<open>
  \<open>executescript\<close> commits a pending transaction and runs every statement of the
  script in autocommit mode.
\<close>

definition executescript :: "(store \<Rightarrow> store) list \<Rightarrow> connection \<Rightarrow> connection" where
  "executescript stmts c =
     fold (\<lambda>stmt c'. c'\<lparr>view := stmt (view c'), db_file := stmt (view c')\<rparr>) stmts (commit c)"

subsection \<open>The SQL statements\<close>

text \<open>
  \<open>CREATE TABLE IF NOT EXISTS summaries\<close> and \<open>CREATE TABLE IF NOT EXISTS products\<close>.
  A table that exists is left as it is. The products table is created with
  \<open>FOREIGN KEY(summary_id) REFERENCES summaries(id) ON DELETE CASCADE\<close>.
\<close>

definition create_summaries :: "store \<Rightarrow> store" where
  "create_summaries st = (case summaries st of None \<Rightarrow> st\<lparr>summaries := Some []\<rparr> | Some _ \<Rightarrow> st)"

definition create_products :: "store \<Rightarrow> store" where
  "create_products st =
     (case products st of
        None \<Rightarrow> st\<lparr>products := Some [], products_on_delete := Cascade\<rparr>
      | Some _ \<Rightarrow> st)"

text \<open>
  \<open>INTEGER PRIMARY KEY AUTOINCREMENT\<close>: the new key is one more than the largest key
  the table holds or ever held. (The engine reports the exhaustion of its 64-bit keys as
  a full database, one of the failures that \<open>write_budget\<close> stands for.)
\<close>

definition next_rowid :: "int \<Rightarrow> int list \<Rightarrow> int" where
  "next_rowid seq ids = fold max ids seq + 1"

text \<open>\<open>INSERT INTO summaries (start_date, ..., created_at) VALUES (?, ?, ?, ?, ?, ?, ?, ?, ?)\<close>\<close>

fun insert_into_summaries :: "summaries_params \<Rightarrow> store \<Rightarrow> error + int \<times> store" where
  "insert_into_summaries
     (start_date, end_date, source, total_revenue, total_units, total_sessions,
      conversion_rate, refund_rate, created_at) st =
     (case summaries st of
        None \<Rightarrow> Inl OperationalError
      | Some rows \<Rightarrow>
          (let k = next_rowid (seq_summaries st) (map s_id rows) in
               Inr (k, st\<lparr>summaries := Some (rows @
                          [\<lparr>s_id = k, s_start_date = start_date, s_end_date = end_date,
                            s_source = source, s_total_revenue = total_revenue,
                            s_total_units = total_units, s_total_sessions = total_sessions,
                            s_conversion_rate = conversion_rate, s_refund_rate = refund_rate,
                            s_created_at = created_at\<rparr>]),
                        seq_summaries := k\<rparr>)))"

text \<open>
  \<open>INSERT OR REPLACE INTO products (summary_id, asin, ..., buy_box_percentage)
  VALUES (?, ?, ?, ?, ?, ?, ?, ?, ?)\<close> under \<open>UNIQUE(summary_id, asin)\<close> and
  \<open>FOREIGN KEY(summary_id) REFERENCES summaries(id)\<close>: rows with the same pair are
  deleted before the new row is stored; with foreign keys enforced, the parent must exist.
\<close>

definition has_summary :: "store \<Rightarrow> int \<Rightarrow> bool" where
  "has_summary st k = (case summaries st of None \<Rightarrow> False | Some hs \<Rightarrow> k \<in> set (map s_id hs))"

fun insert_or_replace_into_products ::
  "products_params \<Rightarrow> bool \<Rightarrow> store \<Rightarrow> error + unit \<times> store" where
  "insert_or_replace_into_products
     (summary_id, asin, title, revenue, units, sessions, conversion_rate, refunds,
      buy_box_percentage) fk st =
     (case products st of
        None \<Rightarrow> Inl OperationalError
      | Some rows \<Rightarrow>
          (let k = next_rowid (seq_products st) (map p_id rows) in
               if fk \<and> \<not> has_summary st summary_id then Inl IntegrityError
               else Inr ((), st\<lparr>products := Some
                          (filter (\<lambda>r. \<not> (p_summary_id r = summary_id \<and> p_asin r = asin)) rows @
                           [\<lparr>p_id = k, p_summary_id = summary_id, p_asin = asin, p_title = title,
                             p_revenue = revenue, p_units = units, p_sessions = sessions,
                             p_conversion_rate = conversion_rate, p_refunds = refunds,
                             p_buy_box_percentage = buy_box_percentage\<rparr>]),
                        seq_products := k\<rparr>)))"

text \<open>
  The two statements on bound parameters. Every REAL column but
  \<open>buy_box_percentage\<close> is declared \<open>NOT NULL\<close>: a NULL there aborts the statement
  with an integrity error (also under \<open>OR REPLACE\<close>, the columns having no default).
\<close>

fun insert_summaries_bound :: "summaries_bound \<Rightarrow> store \<Rightarrow> error + int \<times> store" where
  "insert_summaries_bound
     (start_date, end_date, source, total_revenue, total_units, total_sessions,
      conversion_rate, refund_rate, created_at) st =
     (if summaries st = None then Inl OperationalError
      else
        (case (total_revenue, conversion_rate, refund_rate) of
           (Some revenue', Some conversion_rate', Some refund_rate') \<Rightarrow>
             insert_into_summaries
               (start_date, end_date, source, revenue', total_units, total_sessions,
                conversion_rate', refund_rate', created_at) st
         | _ \<Rightarrow> Inl IntegrityError))"

fun insert_products_bound :: "products_bound \<Rightarrow> bool \<Rightarrow> store \<Rightarrow> error + unit \<times> store" where
  "insert_products_bound
     (summary_id, asin, title, revenue, units, sessions, conversion_rate, refunds,
      buy_box_percentage) fk st =
     (if products st = None then Inl OperationalError
      else
        (case (revenue, conversion_rate) of
           (Some revenue', Some conversion_rate') \<Rightarrow>
             insert_or_replace_into_products
               (summary_id, asin, title, revenue', units, sessions, conversion_rate', refunds,
                buy_box_percentage) fk st
         | _ \<Rightarrow> Inl IntegrityError))"

text \<open>
  \<open>ORDER BY key DESC\<close>: a stable insertion sort into descending order. The order
  SQLite gives to rows with equal keys is not specified; no statement below depends on it.
\<close>

fun insort_desc :: "('a \<Rightarrow> 'k::linorder) \<Rightarrow> 'a \<Rightarrow> 'a list \<Rightarrow> 'a list" where
  "insort_desc key x [] = [x]"
| "insort_desc key x (y # ys) =
     (if key y \<le> key x then x # y # ys else y # insort_desc key x ys)"

definition order_by_desc :: "('a \<Rightarrow> 'k::linorder) \<Rightarrow> 'a list \<Rightarrow> 'a list" where
  "order_by_desc key xs = foldr (insort_desc key) xs []"

text \<open>\<open>LIMIT ?\<close>: a negative limit is no limit.\<close>

definition sql_limit :: "int \<Rightarrow> 'a list \<Rightarrow> 'a list" where
  "sql_limit n xs = (if n < 0 then xs else take (nat n) xs)"

text \<open>
  \<open>SELECT * FROM summaries ORDER BY start_date DESC, id DESC LIMIT ?\<close>, with the
  Python \<open>int\<close> that is bound to its parameter: the statement is prepared, which needs
  the table, then the limit is bound.
\<close>

definition select_recent :: "int \<Rightarrow> store \<Rightarrow> error + summaries_row list" where
  "select_recent limit st =
     (case summaries st of
        None \<Rightarrow> Inl OperationalError
      | Some rows \<Rightarrow>
          (case bind_int limit of
             Inl e \<Rightarrow> Inl e
           | Inr n \<Rightarrow> Inr (sql_limit n (order_by_desc (\<lambda>r. (s_start_date r, s_id r)) rows))))"

text \<open>\<open>SELECT * FROM summaries WHERE start_date = ? ORDER BY id DESC LIMIT 1\<close>\<close>

definition select_by_start :: "string \<Rightarrow> store \<Rightarrow> error + summaries_row list" where
  "select_by_start start st =
     (case summaries st of
        None \<Rightarrow> Inl OperationalError
      | Some rows \<Rightarrow>
          Inr (sql_limit 1 (order_by_desc s_id (filter (\<lambda>r. s_start_date r = start) rows))))"

text \<open>
  \<open>SELECT asin, title, revenue, units, sessions, conversion_rate, refunds,
  buy_box_percentage FROM products WHERE summary_id = ? ORDER BY revenue DESC\<close>
\<close>

definition select_products ::
  "int \<Rightarrow> store \<Rightarrow>
   error + (string \<times> string \<times> real \<times> int \<times> int \<times> real \<times> int \<times> real option) list" where
  "select_products summary_id st =
     (case products st of
        None \<Rightarrow> Inl OperationalError
      | Some rows \<Rightarrow>
          Inr (map (\<lambda>r. (p_asin r, p_title r, p_revenue r, p_units r, p_sessions r,
                         p_conversion_rate r, p_refunds r, p_buy_box_percentage r))
                 (order_by_desc p_revenue (filter (\<lambda>r. p_summary_id r = summary_id) rows))))"

text \<open>
  \<open>DELETE FROM summaries WHERE id = ?\<close>, the statement of a path that deletes a
  header. No method of the repository issues it; what it does to the line-items is
  decided by the definition of the products table that \<open>initialize\<close> has stored
  (\<open>products_on_delete\<close>) and by the \<open>foreign_keys\<close> setting of the connection it
  runs on. Without enforcement the foreign key is ignored. With it, \<open>ON DELETE
  CASCADE\<close> deletes the line-items of the deleted header, and the default action
  refuses to delete a header that has line-items.
\<close>

definition delete_from_summaries :: "int \<Rightarrow> bool \<Rightarrow> store \<Rightarrow> error + unit \<times> store" where
  "delete_from_summaries k fk st =
     (case summaries st of
        None \<Rightarrow> Inl OperationalError
      | Some hs \<Rightarrow>
          (let st1 = st\<lparr>summaries := Some (filter (\<lambda>h. s_id h \<noteq> k) hs)\<rparr>;
               owned = (case products st of
                          None \<Rightarrow> []
                        | Some ps \<Rightarrow> filter (\<lambda>p. p_summary_id p = k) ps)
           in if fk \<and> k \<in> set (map s_id hs) \<and> owned \<noteq> []
              then (case products_on_delete st of
                      Cascade \<Rightarrow>
                        Inr ((), st1\<lparr>products :=
                                   map_option (filter (\<lambda>p. p_summary_id p \<noteq> k)) (products st)\<rparr>)
                    | NoAction \<Rightarrow> Inl IntegrityError)
              else Inr ((), st1)))"

subsection \<open>The methods of SQLiteRepository\<close>

text \<open>
  \<open>initialize\<close>. \<open>mkdir_ok\<close> tells whether the file system lets the parent directory
  be created.
\<close>

definition mkdir :: "bool \<Rightarrow> store \<Rightarrow> error + store" where
  "mkdir mkdir_ok st = (if mkdir_ok then Inr (st\<lparr>parent_exists := True\<rparr>) else Inl OSError)"

definition initialize :: "bool \<Rightarrow> store \<Rightarrow> (error + unit) \<times> store" where
  "initialize mkdir_ok st =
     (case (if \<not> parent_exists st then mkdir mkdir_ok st else Inr st) of
        Inl e \<Rightarrow> (Inl e, st)
      | Inr st1 \<Rightarrow>
          with_connection None st1 (\<lambda>conn.
            let conn = pragma_foreign_keys_on conn;
                conn = executescript [create_summaries, create_products] conn
            in (Inr (), conn)))"

text \<open>
  \<open>executemany\<close> prepares the statement once, which fails when the table is missing
  even if there is no row to insert, and then executes it for every parameter tuple in
  turn, stopping at the first failure.
\<close>

fun execute_rows :: "products_values list \<Rightarrow> connection \<Rightarrow> (error + unit) \<times> connection" where
  "execute_rows [] conn = (Inr (), conn)"
| "execute_rows (row # rows) conn =
     (case execute_bound (bind_products row) insert_products_bound conn of
        (Inl e, conn') \<Rightarrow> (Inl e, conn')
      | (Inr _, conn') \<Rightarrow> execute_rows rows conn')"

definition executemany :: "products_values list \<Rightarrow> connection \<Rightarrow> (error + unit) \<times> connection" where
  "executemany rows conn =
     (if products (view conn) = None then (Inl OperationalError, conn)
      else execute_rows rows conn)"

text \<open>
  \<open>save_summary\<close>. \<open>created_at\<close> is the reading of the clock,
  \<open>datetime.utcnow().isoformat(timespec="seconds")\<close>; \<open>budget\<close> is the engine's
  write budget for this call.
\<close>

definition product_row :: "int \<Rightarrow> ProductPerformance \<Rightarrow> products_values" where
  "product_row summary_id product =
     (summary_id, pp_asin product, pp_title product, pp_revenue product, pp_units product,
      pp_sessions product, pp_conversion_rate product, pp_refunds product,
      pp_buy_box_percentage product)"

definition save_summary ::
  "nat option \<Rightarrow> string \<Rightarrow> DashboardSummary \<Rightarrow> store \<Rightarrow> (error + int) \<times> store" where
  "save_summary budget created_at summary st =
     with_connection budget st (\<lambda>conn.
       let conn = pragma_foreign_keys_on conn in
       case execute_bound (bind_summaries
              (isoformat (ds_start summary), isoformat (ds_end summary), ds_source_name summary,
               t_total_revenue (ds_totals summary), t_total_units (ds_totals summary),
               t_total_sessions (ds_totals summary), t_conversion_rate (ds_totals summary),
               t_refund_rate (ds_totals summary), created_at))
              (\<lambda>params _. insert_summaries_bound params) conn of
         (Inl e, conn) \<Rightarrow> (Inl e, conn)
       | (Inr summary_id, conn) \<Rightarrow>
           (let product_rows = map (product_row summary_id) (ds_top_products summary) in
            case executemany product_rows conn of
              (Inl e, conn) \<Rightarrow> (Inl e, conn)
            | (Inr _, conn) \<Rightarrow> (Inr summary_id, conn)))"

text \<open>\<open>_fetch_products\<close>: \<open>[StoredProduct(*row) for row in product_rows]\<close>\<close>

fun StoredProduct_of ::
  "string \<times> string \<times> real \<times> int \<times> int \<times> real \<times> int \<times> real option \<Rightarrow> StoredProduct" where
  "StoredProduct_of (asin, title, revenue, units, sessions, conversion_rate, refunds,
      buy_box_percentage) =
     \<lparr>sp_asin = asin, sp_title = title, sp_revenue = revenue, sp_units = units,
      sp_sessions = sessions, sp_conversion_rate = conversion_rate, sp_refunds = refunds,
      sp_buy_box_percentage = buy_box_percentage\<rparr>"

definition fetch_products :: "int \<Rightarrow> connection \<Rightarrow> (error + StoredProduct list) \<times> connection" where
  "fetch_products summary_id conn =
     (case execute_select (select_products summary_id) conn of
        (Inl e, conn') \<Rightarrow> (Inl e, conn')
      | (Inr product_rows, conn') \<Rightarrow> (Inr (map StoredProduct_of product_rows), conn'))"

text \<open>\<open>StoredSummary(id=row["id"], start=row["start_date"], ..., products=products)\<close>\<close>

definition StoredSummary_of :: "summaries_row \<Rightarrow> StoredProduct list \<Rightarrow> StoredSummary" where
  "StoredSummary_of row prods =
     \<lparr>ss_id = s_id row, ss_start = s_start_date row, ss_end = s_end_date row,
      ss_source = s_source row, ss_total_revenue = s_total_revenue row,
      ss_total_units = s_total_units row, ss_total_sessions = s_total_sessions row,
      ss_conversion_rate = s_conversion_rate row, ss_refund_rate = s_refund_rate row,
      ss_created_at = s_created_at row, ss_products = prods\<rparr>"

text \<open>
  The loop of \<open>fetch_recent_summaries\<close>; \<open>acc\<close> is the list it appends to. The
  method itself takes the limit as an argument (the default 10 of the source is the
  caller's choice of argument).
\<close>

fun load_summaries ::
  "summaries_row list \<Rightarrow> StoredSummary list \<Rightarrow> connection \<Rightarrow>
   (error + StoredSummary list) \<times> connection" where
  "load_summaries [] acc conn = (Inr acc, conn)"
| "load_summaries (row # rows) acc conn =
     (case fetch_products (s_id row) conn of
        (Inl e, conn') \<Rightarrow> (Inl e, conn')
      | (Inr prods, conn') \<Rightarrow> load_summaries rows (acc @ [StoredSummary_of row prods]) conn')"

definition fetch_recent_summaries ::
  "int \<Rightarrow> store \<Rightarrow> (error + StoredSummary list) \<times> store" where
  "fetch_recent_summaries limit st =
     with_connection None st (\<lambda>conn.
       case execute_select (select_recent limit) conn of
         (Inl e, conn) \<Rightarrow> (Inl e, conn)
       | (Inr rows, conn) \<Rightarrow> load_summaries rows [] conn)"

text \<open>\<open>fetch_by_start_date\<close>; \<open>fetchone()\<close> is the first row of the result, if any.\<close>

definition fetch_by_start_date ::
  "string \<Rightarrow> store \<Rightarrow> (error + StoredSummary option) \<times> store" where
  "fetch_by_start_date start st =
     with_connection None st (\<lambda>conn.
       case execute_select (select_by_start start) conn of
         (Inl e, conn) \<Rightarrow> (Inl e, conn)
       | (Inr rows, conn) \<Rightarrow>
           (case rows of
              [] \<Rightarrow> (Inr None, conn)
            | row # _ \<Rightarrow>
                (case fetch_products (s_id row) conn of
                   (Inl e, conn) \<Rightarrow> (Inl e, conn)
                 | (Inr prods, conn) \<Rightarrow> (Inr (Some (StoredSummary_of row prods)), conn))))"

subsection \<open>Notions used to state the properties\<close>

text \<open>A store on which \<open>initialize\<close> has succeeded: the directory and both tables exist.\<close>

definition initialized :: "store \<Rightarrow> bool" where
  "initialized st = (parent_exists st \<and> summaries st \<noteq> None \<and> products st \<noteq> None)"

text \<open>The connection that \<open>connect\<close> opens on a store whose directory exists.\<close>

definition fresh_connection :: "nat option \<Rightarrow> store \<Rightarrow> connection" where
  "fresh_connection budget st =
     \<lparr>db_file = st, view = st, in_transaction = False, foreign_keys = False,
      write_budget = budget\<rparr>"

text \<open>
  What a row of the products table reads as, and the header fields of a result record
  as a row of the summaries table.
\<close>

definition line_item :: "products_row \<Rightarrow> StoredProduct" where
  "line_item r =
     \<lparr>sp_asin = p_asin r, sp_title = p_title r, sp_revenue = p_revenue r,
      sp_units = p_units r, sp_sessions = p_sessions r,
      sp_conversion_rate = p_conversion_rate r, sp_refunds = p_refunds r,
      sp_buy_box_percentage = p_buy_box_percentage r\<rparr>"

definition header_of :: "StoredSummary \<Rightarrow> summaries_row" where
  "header_of rec =
     \<lparr>s_id = ss_id rec, s_start_date = ss_start rec, s_end_date = ss_end rec,
      s_source = ss_source rec, s_total_revenue = ss_total_revenue rec,
      s_total_units = ss_total_units rec, s_total_sessions = ss_total_sessions rec,
      s_conversion_rate = ss_conversion_rate rec, s_refund_rate = ss_refund_rate rec,
      s_created_at = ss_created_at rec\<rparr>"

text \<open>Line-items in order of revenue, largest first.\<close>

definition revenue_descending :: "StoredProduct list \<Rightarrow> bool" where
  "revenue_descending prods = sorted_wrt (\<lambda>a b. sp_revenue b \<le> sp_revenue a) prods"

text \<open>
  Header rows in order of start date, latest first, and of surrogate key, largest first,
  among equal start dates.
\<close>

definition recency_descending :: "summaries_row list \<Rightarrow> bool" where
  "recency_descending rows =
     sorted_wrt (\<lambda>a b. s_start_date b < s_start_date a \<or>
                        (s_start_date b = s_start_date a \<and> s_id b \<le> s_id a)) rows"

text \<open>
  The line-items of a result record are those that the products table holds for its
  key, in order of revenue.
\<close>

definition carries_line_items :: "products_row list \<Rightarrow> StoredSummary \<Rightarrow> bool" where
  "carries_line_items ps rec =
     (revenue_descending (ss_products rec) \<and>
      mset (ss_products rec) = mset (map line_item (filter (\<lambda>r. p_summary_id r = ss_id rec) ps)))"

text \<open>What \<open>_fetch_products\<close> returns for a key when the products table holds \<open>ps\<close>.\<close>

definition stored_line_items :: "products_row list \<Rightarrow> int \<Rightarrow> StoredProduct list" where
  "stored_line_items ps k =
     map line_item (order_by_desc p_revenue (filter (\<lambda>r. p_summary_id r = k) ps))"

subsection \<open>Example data\<close>

text \<open>
  The summary of the round-trip example: window 2024-01-01 to 2024-01-07, source
  \<open>reportA\<close>, products P1 (revenue 600) and P2 (revenue 400), handed over with P2 first.
\<close>

definition example_product :: "string \<Rightarrow> real \<Rightarrow> ProductPerformance" where
  "example_product a amount =
     \<lparr>pp_asin = a, pp_title = ''title of '' @ a, pp_revenue = Num amount, pp_units = 30,
      pp_sessions = 300, pp_conversion_rate = Num (1 / 10), pp_refunds = 1,
      pp_buy_box_percentage = None\<rparr>"

definition example_summary :: "ProductPerformance list \<Rightarrow> DashboardSummary" where
  "example_summary tops =
     \<lparr>ds_start = \<lparr>d_year = 2024, d_month = 1, d_day = 1\<rparr>,
      ds_end = \<lparr>d_year = 2024, d_month = 1, d_day = 7\<rparr>,
      ds_source_name = ''reportA'',
      ds_totals = \<lparr>t_total_revenue = Num 1000, t_total_units = 50, t_total_sessions = 500,
                   t_conversion_rate = Num (1 / 10), t_refund_rate = Num (2 / 100)\<rparr>,
      ds_top_products = tops\<rparr>"

text \<open>A store with both tables, as \<open>initialize\<close> creates them, and no rows.\<close>

definition empty_store :: store where
  "empty_store =
     \<lparr>parent_exists = True, summaries = Some [], products = Some [],
      seq_summaries = 0, seq_products = 0, products_on_delete = Cascade\<rparr>"

text \<open>
  A store with three headers, two of them for the window starting 2024-01-01, and the
  line-items of the headers 1 and 3.
\<close>

definition example_header :: "int \<Rightarrow> string \<Rightarrow> summaries_row" where
  "example_header k start =
     \<lparr>s_id = k, s_start_date = start, s_end_date = ''2024-01-31'', s_source = ''reportA'',
      s_total_revenue = 1000, s_total_units = 50, s_total_sessions = 500,
      s_conversion_rate = 1 / 10, s_refund_rate = 2 / 100,
      s_created_at = ''2024-02-01T00:00:00''\<rparr>"

definition example_line :: "int \<Rightarrow> int \<Rightarrow> string \<Rightarrow> real \<Rightarrow> products_row" where
  "example_line k sid a amount =
     \<lparr>p_id = k, p_summary_id = sid, p_asin = a, p_title = ''title of '' @ a, p_revenue = amount,
      p_units = 30, p_sessions = 300, p_conversion_rate = 1 / 10, p_refunds = 1,
      p_buy_box_percentage = None\<rparr>"

definition example_headers :: "summaries_row list" where
  "example_headers =
     [example_header 1 ''2024-01-01'', example_header 2 ''2024-01-08'',
      example_header 3 ''2024-01-01'']"

definition example_lines :: "products_row list" where
  "example_lines =
     [example_line 1 1 ''P1'' 600, example_line 2 1 ''P2'' 400,
      example_line 3 3 ''P2'' 400, example_line 4 3 ''P1'' 600]"

definition example_store :: store where
  "example_store =
     \<lparr>parent_exists = True, summaries = Some example_headers, products = Some example_lines,
      seq_summaries = 3, seq_products = 4, products_on_delete = Cascade\<rparr>"

subsection \<open>Notions used to state the properties of writing\<close>

text \<open>
  The pair that \<open>UNIQUE(summary_id, asin)\<close> constrains, of a parameter tuple and of
  a stored row, and the parameter tuple that a stored row was written from.
\<close>

definition row_key :: "products_params \<Rightarrow> int \<times> string" where
  "row_key row = (fst row, fst (snd row))"

definition stored_key :: "products_row \<Rightarrow> int \<times> string" where
  "stored_key r = (p_summary_id r, p_asin r)"

definition params_of :: "products_row \<Rightarrow> products_params" where
  "params_of r =
     (p_summary_id r, p_asin r, p_title r, p_revenue r, p_units r, p_sessions r,
      p_conversion_rate r, p_refunds r, p_buy_box_percentage r)"

text \<open>
  Of the parameter tuples with the same pair only the last is kept, the others are
  dropped; tuples with distinct pairs stay as they are.
\<close>

fun last_wins :: "products_params list \<Rightarrow> products_params list" where
  "last_wins [] = []"
| "last_wins (row # rows) =
     (if row_key row \<in> row_key ` set rows then last_wins rows else row # last_wins rows)"

text \<open>
  A summary that the two tables can hold: every float of a \<open>NOT NULL\<close> column is a
  number and every integer fits into 64 bits. (The buy-box percentage may be absent or
  NaN.)
\<close>

definition fits_int64 :: "int \<Rightarrow> bool" where
  "fits_int64 n = (- 9223372036854775808 \<le> n \<and> n \<le> 9223372036854775807)"

definition is_number :: "py_float \<Rightarrow> bool" where
  "is_number x = (x \<noteq> NaN)"

definition storable_product :: "ProductPerformance \<Rightarrow> bool" where
  "storable_product product =
     (is_number (pp_revenue product) \<and> is_number (pp_conversion_rate product) \<and>
      fits_int64 (pp_units product) \<and> fits_int64 (pp_sessions product) \<and>
      fits_int64 (pp_refunds product))"

definition storable_summary :: "DashboardSummary \<Rightarrow> bool" where
  "storable_summary summary =
     (is_number (t_total_revenue (ds_totals summary)) \<and>
      is_number (t_conversion_rate (ds_totals summary)) \<and>
      is_number (t_refund_rate (ds_totals summary)) \<and>
      fits_int64 (t_total_units (ds_totals summary)) \<and>
      fits_int64 (t_total_sessions (ds_totals summary)) \<and>
      list_all storable_product (ds_top_products summary))"

text \<open>
  The REAL that a float is stored as (for NaN, which no \<open>NOT NULL\<close> column takes, the
  value is immaterial), and the nullable REAL that a buy-box percentage is stored as.
\<close>

definition number :: "py_float \<Rightarrow> real" where
  "number x = (case x of NaN \<Rightarrow> 0 | Num r \<Rightarrow> r)"

definition stored_buy_box :: "py_float option \<Rightarrow> real option" where
  "stored_buy_box b = (case b of None \<Rightarrow> None | Some x \<Rightarrow> bind_float x)"

text \<open>
  The header row that \<open>save_summary\<close> writes for a storable summary under key \<open>k\<close> at
  time \<open>created_at\<close>, and the column values it writes for a storable product entry.
\<close>

definition header_row :: "int \<Rightarrow> string \<Rightarrow> DashboardSummary \<Rightarrow> summaries_row" where
  "header_row k created_at summary =
     \<lparr>s_id = k, s_start_date = isoformat (ds_start summary),
      s_end_date = isoformat (ds_end summary), s_source = ds_source_name summary,
      s_total_revenue = number (t_total_revenue (ds_totals summary)),
      s_total_units = t_total_units (ds_totals summary),
      s_total_sessions = t_total_sessions (ds_totals summary),
      s_conversion_rate = number (t_conversion_rate (ds_totals summary)),
      s_refund_rate = number (t_refund_rate (ds_totals summary)), s_created_at = created_at\<rparr>"

definition stored_row :: "int \<Rightarrow> ProductPerformance \<Rightarrow> products_params" where
  "stored_row k product =
     (k, pp_asin product, pp_title product, number (pp_revenue product), pp_units product,
      pp_sessions product, number (pp_conversion_rate product), pp_refunds product,
      stored_buy_box (pp_buy_box_percentage product))"

text \<open>
  The same for a parameter tuple as Python builds it: whether the products table can
  hold it, and the column values it is stored as.
\<close>

fun storable_values :: "products_values \<Rightarrow> bool" where
  "storable_values
     (summary_id, asin, title, revenue, units, sessions, conversion_rate, refunds,
      buy_box_percentage) =
     (fits_int64 summary_id \<and> is_number revenue \<and> fits_int64 units \<and> fits_int64 sessions \<and>
      is_number conversion_rate \<and> fits_int64 refunds)"

fun stored_values :: "products_values \<Rightarrow> products_params" where
  "stored_values
     (summary_id, asin, title, revenue, units, sessions, conversion_rate, refunds,
      buy_box_percentage) =
     (summary_id, asin, title, number revenue, units, sessions, number conversion_rate,
      refunds, stored_buy_box buy_box_percentage)"

text \<open>
  A storable product entry of the input as the line-item it is read back as: field by
  field the entry, a NaN buy-box percentage being read back as absent.
\<close>

definition written_item :: "ProductPerformance \<Rightarrow> StoredProduct" where
  "written_item product =
     \<lparr>sp_asin = pp_asin product, sp_title = pp_title product,
      sp_revenue = number (pp_revenue product), sp_units = pp_units product,
      sp_sessions = pp_sessions product,
      sp_conversion_rate = number (pp_conversion_rate product),
      sp_refunds = pp_refunds product,
      sp_buy_box_percentage = stored_buy_box (pp_buy_box_percentage product)\<rparr>"

text \<open>
  Of the product entries with the same identifier only the last is kept; entries with
  distinct identifiers stay as they are.
\<close>

fun last_entries :: "ProductPerformance list \<Rightarrow> ProductPerformance list" where
  "last_entries [] = []"
| "last_entries (p # ps) =
     (if pp_asin p \<in> pp_asin ` set ps then last_entries ps else p # last_entries ps)"

text \<open>Every line-item belongs to a stored header.\<close>

definition referential_integrity :: "store \<Rightarrow> bool" where
  "referential_integrity st =
     (case products st of
        None \<Rightarrow> True
      | Some ps \<Rightarrow> list_all (\<lambda>r. has_summary st (p_summary_id r)) ps)"

text \<open>
  The clock reading of the examples, the summary of the round-trip example and a summary
  whose two product entries share the identifier P1.
\<close>

definition example_clock :: string where
  "example_clock = ''2024-01-08T09:00:00''"

definition roundtrip_summary :: DashboardSummary where
  "roundtrip_summary = example_summary [example_product ''P2'' 400, example_product ''P1'' 600]"

definition duplicate_summary :: DashboardSummary where
  "duplicate_summary = example_summary [example_product ''P1'' 600, example_product ''P1'' 400]"

text \<open>
  What lies at \<open>db_path\<close> before the first call: no directory, no database. And the
  stores whose products table is defined as \<open>initialize\<close> defines it.
\<close>

definition blank_store :: store where
  "blank_store =
     \<lparr>parent_exists = False, summaries = None, products = None,
      seq_summaries = 0, seq_products = 0, products_on_delete = NoAction\<rparr>"

definition as_initialize_declares :: "store \<Rightarrow> bool" where
  "as_initialize_declares st =
     (products st \<noteq> None \<and>
      products_on_delete st = products_on_delete (snd (initialize True blank_store)))"

text \<open>
  The dates that \<open>datetime.date\<close> can hold (the length of the month apart), and their
  calendar order.
\<close>

definition valid_date :: "date \<Rightarrow> bool" where
  "valid_date d =
     (1 \<le> d_year d \<and> d_year d \<le> 9999 \<and> 1 \<le> d_month d \<and> d_month d \<le> 12 \<and>
      1 \<le> d_day d \<and> d_day d \<le> 31)"

section \<open>Properties\<close>

subsection \<open>Ordering\<close>

lemma mset_insort_desc: "mset (insort_desc key x xs) = add_mset x (mset xs)"
  by (induction xs) auto

lemma mset_order_by_desc: "mset (order_by_desc key xs) = mset xs"
  by (induction xs) (auto simp: order_by_desc_def mset_insort_desc)

lemma set_insort_desc: "set (insort_desc key x xs) = insert x (set xs)"
  by (induction xs) auto

lemma set_order_by_desc: "set (order_by_desc key xs) = set xs"
  by (induction xs) (auto simp: order_by_desc_def set_insort_desc)

lemma sorted_insort_desc:
  "sorted_wrt (\<lambda>a b. key b \<le> key a) xs \<Longrightarrow>
   sorted_wrt (\<lambda>a b. key b \<le> key a) (insort_desc key x xs)"
  by (induction xs) (auto simp: set_insort_desc)

lemma sorted_order_by_desc: "sorted_wrt (\<lambda>a b. key b \<le> key a) (order_by_desc key xs)"
proof (induction xs)
  case Nil
  show ?case by (simp add: order_by_desc_def)
next
  case (Cons x xs)
  have "order_by_desc key (x # xs) = insort_desc key x (order_by_desc key xs)"
    by (simp add: order_by_desc_def)
  with Cons show ?case by (simp add: sorted_insort_desc)
qed

lemma order_by_desc_Nil: "order_by_desc key [] = []"
  by (simp add: order_by_desc_def)

lemma order_by_desc_single: "order_by_desc key [x] = [x]"
  by (simp add: order_by_desc_def)

subsection \<open>Reading\<close>

text \<open>A SELECT hands the connection on as it found it.\<close>

lemma fetch_products_eq:
  "fetch_products k c =
     ((case select_products k (view c) of
         Inl e \<Rightarrow> Inl e
       | Inr product_rows \<Rightarrow> Inr (map StoredProduct_of product_rows)), c)"
  by (simp add: fetch_products_def execute_select_def split: sum.splits)

lemma load_summaries_conn: "snd (load_summaries rows acc c) = c"
  by (induction rows arbitrary: acc) (simp_all add: fetch_products_eq split: sum.splits)

lemma with_connection_read:
  assumes "\<And>c. snd (body c) = c"
  shows "snd (with_connection budget st body) = st"
proof (cases "parent_exists st")
  case False
  then show ?thesis by (simp add: with_connection_def connect_def)
next
  case True
  let ?c = "\<lparr>db_file = st, view = st, in_transaction = False, foreign_keys = False,
             write_budget = budget\<rparr>"
  obtain r c' where b: "body ?c = (r, c')" by (cases "body ?c")
  with assms [of ?c] have "c' = ?c" by simp
  with b True show ?thesis
    by (cases r) (simp_all add: with_connection_def connect_def commit_def rollback_def)
qed

text \<open>
  C10. Neither \<open>fetch_recent_summaries\<close> nor \<open>fetch_by_start_date\<close> modifies the
  store: whatever the store, the limit and the start date, and whether the call returns
  or raises, the store after the call is the store before it.
\<close>

theorem reads_leave_store_unchanged:
  "snd (fetch_recent_summaries limit st) = st \<and> snd (fetch_by_start_date start st) = st"
proof
  show "snd (fetch_recent_summaries limit st) = st"
    unfolding fetch_recent_summaries_def
    by (rule with_connection_read)
       (simp add: execute_select_def load_summaries_conn split: sum.splits)
  show "snd (fetch_by_start_date start st) = st"
    unfolding fetch_by_start_date_def
    by (rule with_connection_read)
       (simp add: execute_select_def fetch_products_eq split: sum.splits list.splits)
qed

lemma with_connection_read_eq:
  assumes "parent_exists st" and "\<And>c. snd (body c) = c"
  shows "with_connection budget st body = (fst (body (fresh_connection budget st)), st)"
proof -
  let ?c = "fresh_connection budget st"
  obtain r c' where b: "body ?c = (r, c')" by (cases "body ?c")
  with assms(2) [of ?c] have "c' = ?c" by simp
  with b assms(1) show ?thesis
    by (cases r)
       (simp_all add: with_connection_def connect_def commit_def rollback_def
          fresh_connection_def)
qed

lemma view_fresh_connection: "view (fresh_connection budget st) = st"
  by (simp add: fresh_connection_def)

lemma fetch_products_Some:
  "products (view c) = Some ps \<Longrightarrow> fetch_products k c = (Inr (stored_line_items ps k), c)"
  by (simp add: fetch_products_eq select_products_def stored_line_items_def line_item_def)

lemma revenue_descending_stored: "revenue_descending (stored_line_items ps k)"
  using sorted_order_by_desc [of p_revenue]
  by (simp add: revenue_descending_def stored_line_items_def sorted_wrt_map line_item_def)

lemma mset_stored_line_items:
  "mset (stored_line_items ps k) = mset (map line_item (filter (\<lambda>r. p_summary_id r = k) ps))"
  by (simp add: stored_line_items_def mset_order_by_desc)

lemma carries_stored:
  "ss_id rec = k \<Longrightarrow> ss_products rec = stored_line_items ps k \<Longrightarrow> carries_line_items ps rec"
  by (simp add: carries_line_items_def revenue_descending_stored mset_stored_line_items)

lemma order_by_desc_hd:
  assumes "order_by_desc key xs = y # ys"
  shows "y \<in> set xs \<and> (\<forall>x\<in>set xs. key x \<le> key y)"
proof -
  have s: "set (y # ys) = set xs"
    using assms set_order_by_desc [of key xs] by simp
  have "sorted_wrt (\<lambda>a b. key b \<le> key a) (y # ys)"
    using assms sorted_order_by_desc [of key xs] by simp
  then have "\<forall>x\<in>set ys. key x \<le> key y" by simp
  with s show ?thesis by auto
qed

text \<open>\<open>fetch_by_start_date\<close> on a store that has the summaries table.\<close>

lemma fetch_by_start_date_select:
  assumes "parent_exists st" and "summaries st = Some hs"
  shows "fetch_by_start_date start st =
     ((case order_by_desc s_id (filter (\<lambda>r. s_start_date r = start) hs) of
         [] \<Rightarrow> Inr None
       | row # _ \<Rightarrow>
           (case fst (fetch_products (s_id row) (fresh_connection None st)) of
              Inl e \<Rightarrow> Inl e
            | Inr prods \<Rightarrow> Inr (Some (StoredSummary_of row prods)))), st)"
proof -
  have "fetch_by_start_date start st =
     (fst (case execute_select (select_by_start start) (fresh_connection None st) of
         (Inl e, conn) \<Rightarrow> (Inl e, conn)
       | (Inr rows, conn) \<Rightarrow>
           (case rows of
              [] \<Rightarrow> (Inr None, conn)
            | row # _ \<Rightarrow>
                (case fetch_products (s_id row) conn of
                   (Inl e, conn) \<Rightarrow> (Inl e, conn)
                 | (Inr prods, conn) \<Rightarrow> (Inr (Some (StoredSummary_of row prods)), conn)))), st)"
    unfolding fetch_by_start_date_def using assms(1)
    by (rule with_connection_read_eq)
       (simp add: execute_select_def fetch_products_eq split: sum.splits list.splits)
  then show ?thesis
    using assms(2)
    by (simp add: execute_select_def view_fresh_connection select_by_start_def sql_limit_def
        split: list.splits sum.splits prod.splits)
qed

text \<open>
  C5. On a store whose summaries table holds no row with the given start date,
  \<open>fetch_by_start_date\<close> returns \<open>None\<close> as its result: it does not raise, and it
  returns no record.
\<close>

theorem fetch_by_start_date_absent:
  assumes "parent_exists st" and "summaries st = Some hs"
    and "\<forall>h\<in>set hs. s_start_date h \<noteq> start"
  shows "fetch_by_start_date start st = (Inr None, st)"
proof -
  have "filter (\<lambda>r. s_start_date r = start) hs = []"
    using assms(3) by (simp add: filter_empty_conv)
  then show ?thesis
    using fetch_by_start_date_select [OF assms(1,2), of start]
    by (simp add: order_by_desc_Nil)
qed

text \<open>
  C4. On a store that holds at least one header row with the given start date,
  \<open>fetch_by_start_date\<close> returns a record whose header fields are those of a stored
  row with that start date, whose key is the largest among the rows with that start
  date, and whose line-items are the stored line-items of that key in order of revenue,
  largest first.
\<close>

theorem fetch_by_start_date_latest:
  assumes "parent_exists st" and "summaries st = Some hs" and "products st = Some ps"
    and "\<exists>h\<in>set hs. s_start_date h = start"
  shows "\<exists>rec. fetch_by_start_date start st = (Inr (Some rec), st) \<and>
           header_of rec \<in> set hs \<and> ss_start rec = start \<and>
           (\<forall>h\<in>set hs. s_start_date h = start \<longrightarrow> s_id h \<le> ss_id rec) \<and>
           carries_line_items ps rec"
proof -
  let ?m = "filter (\<lambda>r. s_start_date r = start) hs"
  from assms(4) have "?m \<noteq> []" by (simp add: filter_empty_conv)
  then have "order_by_desc s_id ?m \<noteq> []"
    using set_order_by_desc [of s_id ?m] by (metis set_empty)
  then obtain row rest where o: "order_by_desc s_id ?m = row # rest"
    by (cases "order_by_desc s_id ?m") auto
  from order_by_desc_hd [OF o]
  have row: "row \<in> set hs" "s_start_date row = start"
    and top: "\<forall>h\<in>set hs. s_start_date h = start \<longrightarrow> s_id h \<le> s_id row"
    by auto
  let ?rec = "StoredSummary_of row (stored_line_items ps (s_id row))"
  have "fetch_products (s_id row) (fresh_connection None st) =
          (Inr (stored_line_items ps (s_id row)), fresh_connection None st)"
    by (rule fetch_products_Some) (simp add: view_fresh_connection assms(3))
  then have "fetch_by_start_date start st = (Inr (Some ?rec), st)"
    using fetch_by_start_date_select [OF assms(1,2), of start] o by simp
  moreover have "header_of ?rec = row"
    by (simp add: header_of_def StoredSummary_of_def)
  moreover have "ss_start ?rec = start" "ss_id ?rec = s_id row"
    using row(2) by (simp_all add: StoredSummary_of_def)
  moreover have "carries_line_items ps ?rec"
    by (rule carries_stored) (simp_all add: StoredSummary_of_def)
  ultimately show ?thesis using row(1) top by auto
qed

theorem fetch_by_start_date_absent_witness:
  "parent_exists example_store \<and> summaries example_store = Some example_headers \<and>
   fetch_by_start_date ''2024-01-15'' example_store = (Inr None, example_store)"
  using fetch_by_start_date_absent [of example_store example_headers "''2024-01-15''"]
  by (simp add: example_store_def example_headers_def example_header_def)

theorem fetch_by_start_date_latest_witness:
  "\<exists>rec. fetch_by_start_date ''2024-01-01'' example_store = (Inr (Some rec), example_store) \<and>
         ss_id rec = 3 \<and> carries_line_items example_lines rec"
proof -
  from fetch_by_start_date_latest
         [of example_store example_headers example_lines "''2024-01-01''"]
  obtain rec
    where r: "fetch_by_start_date ''2024-01-01'' example_store = (Inr (Some rec), example_store)"
      and h: "header_of rec \<in> set example_headers"
      and top: "\<forall>h\<in>set example_headers. s_start_date h = ''2024-01-01'' \<longrightarrow> s_id h \<le> ss_id rec"
      and c: "carries_line_items example_lines rec"
    by (auto simp: example_store_def example_headers_def example_header_def)
  from top have "3 \<le> ss_id rec"
    by (simp add: example_headers_def example_header_def)
  moreover from h have "ss_id rec \<le> 3"
    by (auto simp: example_headers_def example_header_def header_of_def)
  ultimately have "ss_id rec = 3" by simp
  with r c show ?thesis by blast
qed

lemma header_of_StoredSummary_of: "header_of (StoredSummary_of row prods) = row"
  by (simp add: header_of_def StoredSummary_of_def)

text \<open>\<open>fetch_recent_summaries\<close> on a store that has both tables.\<close>

lemma load_summaries_eq:
  "products (view c) = Some ps \<Longrightarrow>
   load_summaries rows acc c =
     (Inr (acc @ map (\<lambda>row. StoredSummary_of row (stored_line_items ps (s_id row))) rows), c)"
  by (induction rows arbitrary: acc) (simp_all add: fetch_products_Some)

lemma bind_int_fits: "fits_int64 n \<Longrightarrow> bind_int n = Inr n"
  by (simp add: bind_int_def fits_int64_def)

lemma bind_int_Inr: "bind_int n = Inr m \<Longrightarrow> m = n \<and> fits_int64 n"
  by (simp add: bind_int_def fits_int64_def split: if_splits)

lemma fetch_recent_summaries_eq:
  assumes "parent_exists st" and "summaries st = Some hs" and "products st = Some ps"
    and "fits_int64 limit"
  shows "fetch_recent_summaries limit st =
     (Inr (map (\<lambda>row. StoredSummary_of row (stored_line_items ps (s_id row)))
             (sql_limit limit (order_by_desc (\<lambda>r. (s_start_date r, s_id r)) hs))), st)"
proof -
  have "fetch_recent_summaries limit st =
     (fst (case execute_select (select_recent limit) (fresh_connection None st) of
         (Inl e, conn) \<Rightarrow> (Inl e, conn)
       | (Inr rows, conn) \<Rightarrow> load_summaries rows [] conn), st)"
    unfolding fetch_recent_summaries_def using assms(1)
    by (rule with_connection_read_eq)
       (simp add: execute_select_def load_summaries_conn split: sum.splits)
  then show ?thesis
    using assms(2,3)
    by (simp add: execute_select_def view_fresh_connection select_recent_def load_summaries_eq
        bind_int_fits [OF assms(4)])
qed

lemma recency_descending_order_by:
  "recency_descending (order_by_desc (\<lambda>r. (s_start_date r, s_id r)) hs)"
proof -
  have "sorted_wrt (\<lambda>a b. (s_start_date b, s_id b) \<le> (s_start_date a, s_id a))
          (order_by_desc (\<lambda>r. (s_start_date r, s_id r)) hs)"
    by (rule sorted_order_by_desc)
  then show ?thesis
    unfolding recency_descending_def
    by (rule sorted_wrt_mono_rel [rotated]) (auto simp: less_eq_prod_def)
qed

text \<open>
  C2, as amended. On a store with both tables and for a positive limit that fits into
  64 bits (at most \<open>2^63 - 1\<close>), \<open>fetch_recent_summaries\<close> returns the first
  \<open>limit\<close> rows of an arrangement of all header rows by start date descending and,
  among equal start dates, by key descending; each record carries the stored line-items
  of its key in order of revenue, largest first; a store without rows gives the empty
  list.
\<close>

theorem fetch_recent_summaries_ordered:
  assumes "parent_exists st" and "summaries st = Some hs" and "products st = Some ps"
    and "0 < limit" and "limit \<le> 9223372036854775807"
  shows "\<exists>res ordered.
           fetch_recent_summaries limit st = (Inr res, st) \<and>
           mset ordered = mset hs \<and> recency_descending ordered \<and>
           map header_of res = take (nat limit) ordered \<and>
           length res \<le> nat limit \<and>
           (\<forall>rec\<in>set res. carries_line_items ps rec) \<and>
           (hs = [] \<longrightarrow> res = [])"
proof -
  let ?ordered = "order_by_desc (\<lambda>r. (s_start_date r, s_id r)) hs"
  let ?res = "map (\<lambda>row. StoredSummary_of row (stored_line_items ps (s_id row)))
                (take (nat limit) ?ordered)"
  have "fits_int64 limit"
    using assms(4,5) by (simp add: fits_int64_def)
  then have "fetch_recent_summaries limit st = (Inr ?res, st)"
    using fetch_recent_summaries_eq [OF assms(1,2,3), of limit] assms(4)
    by (simp add: sql_limit_def)
  moreover have "mset ?ordered = mset hs"
    by (rule mset_order_by_desc)
  moreover have "recency_descending ?ordered"
    by (rule recency_descending_order_by)
  moreover have "map header_of ?res = take (nat limit) ?ordered"
    by (simp add: o_def header_of_StoredSummary_of)
  moreover have "length ?res \<le> nat limit"
    by simp
  moreover have "\<forall>rec\<in>set ?res. carries_line_items ps rec"
    by (auto intro!: carries_stored simp: StoredSummary_of_def)
  moreover have "hs = [] \<longrightarrow> ?res = []"
    by (simp add: order_by_desc_Nil)
  ultimately show ?thesis by blast
qed

theorem fetch_recent_summaries_ordered_witness:
  "\<exists>res. fetch_recent_summaries 2 example_store = (Inr res, example_store) \<and>
         map ss_id res = [2, 3] \<and> list_all (carries_line_items example_lines) res"
proof -
  from fetch_recent_summaries_ordered [of example_store example_headers example_lines 2]
  obtain res ordered
    where r: "fetch_recent_summaries 2 example_store = (Inr res, example_store)"
      and m: "mset ordered = mset example_headers"
      and o: "recency_descending ordered"
      and t: "map header_of res = take (nat 2) ordered"
      and c: "\<forall>rec\<in>set res. carries_line_items example_lines rec"
    by (auto simp: example_store_def)
  have e: "fetch_recent_summaries 2 example_store =
      (Inr (map (\<lambda>row. StoredSummary_of row (stored_line_items example_lines (s_id row)))
             [example_header 2 ''2024-01-08'', example_header 3 ''2024-01-01'']), example_store)"
    using fetch_recent_summaries_eq [of example_store example_headers example_lines 2]
    by (simp add: example_store_def example_headers_def example_header_def order_by_desc_def
        sql_limit_def fits_int64_def)
  from r e have "map ss_id res = [2, 3]"
    by (auto simp: StoredSummary_of_def example_header_def)
  with r c show ?thesis by (auto simp: list_all_iff)
qed

text \<open>
  A positive limit that does not fit: the driver refuses to bind \<open>2^63\<close>, and the call
  raises instead of returning the three summaries of the store.
\<close>

theorem fetch_recent_summaries_limit_too_large:
  "(0::int) < 9223372036854775808 \<and>
   fetch_recent_summaries 9223372036854775808 example_store = (Inl OverflowError, example_store)"
  by (simp add: fetch_recent_summaries_def with_connection_def connect_def execute_select_def
      select_recent_def bind_int_def rollback_def example_store_def)

subsection \<open>Initialization\<close>

lemma initialize_eq:
  "initialize mkdir_ok st =
     (if \<not> parent_exists st \<and> \<not> mkdir_ok then (Inl OSError, st)
      else (Inr (), create_products (create_summaries (st\<lparr>parent_exists := True\<rparr>))))"
proof (cases "parent_exists st")
  case True
  then have e: "st\<lparr>parent_exists := True\<rparr> = st" by simp
  have "initialize mkdir_ok st = (Inr (), create_products (create_summaries st))"
    using True
    by (simp add: initialize_def with_connection_def connect_def
        pragma_foreign_keys_on_def executescript_def commit_def)
  then show ?thesis unfolding e using True by simp
next
  case False
  then show ?thesis
    by (simp add: initialize_def mkdir_def with_connection_def connect_def
        pragma_foreign_keys_on_def executescript_def commit_def)
qed

lemma initialize_initialized:
  "fst (initialize mkdir_ok st) = Inr () \<Longrightarrow> initialized (snd (initialize mkdir_ok st))"
  by (auto simp: initialize_eq initialized_def create_summaries_def create_products_def
      split: if_splits option.splits)

text \<open>
  C7. On a store that already has both tables, \<open>initialize\<close> leaves the two tables,
  their rows, their key sequences and the stored definition of the foreign key as they
  are; where the directory exists as well, the call succeeds and the whole store is
  unchanged.
\<close>

theorem initialize_idempotent:
  assumes "summaries st \<noteq> None" and "products st \<noteq> None"
  shows "summaries (snd (initialize mkdir_ok st)) = summaries st \<and>
         products (snd (initialize mkdir_ok st)) = products st \<and>
         seq_summaries (snd (initialize mkdir_ok st)) = seq_summaries st \<and>
         seq_products (snd (initialize mkdir_ok st)) = seq_products st \<and>
         products_on_delete (snd (initialize mkdir_ok st)) = products_on_delete st \<and>
         (parent_exists st \<longrightarrow> initialize mkdir_ok st = (Inr (), st))"
  using assms
  by (auto simp: initialize_eq create_summaries_def create_products_def)

theorem initialize_idempotent_witness:
  "summaries example_store \<noteq> None \<and> products example_store \<noteq> None \<and>
   initialize False example_store = (Inr (), example_store)"
  using initialize_idempotent [of example_store False]
  by (simp add: example_store_def)

text \<open>Calling \<open>initialize\<close> a second time, from any store on which it succeeded.\<close>

lemma initialize_twice:
  assumes "fst (initialize a st) = Inr ()"
  shows "initialize b (snd (initialize a st)) = (Inr (), snd (initialize a st))"
proof -
  from initialize_initialized [OF assms]
  have "parent_exists (snd (initialize a st))"
    and "summaries (snd (initialize a st)) \<noteq> None"
    and "products (snd (initialize a st)) \<noteq> None"
    by (simp_all add: initialized_def)
  then show ?thesis
    by (auto simp: initialize_eq [of b] create_summaries_def create_products_def)
qed

subsection \<open>Writing\<close>

lemma fold_max_ge: "seq \<le> fold max ids (seq::int)"
proof (induction ids arbitrary: seq)
  case Nil
  show ?case by simp
next
  case (Cons x xs)
  have "seq \<le> max x seq" by simp
  also have "\<dots> \<le> fold max xs (max x seq)" by (rule Cons.IH)
  finally show ?case by simp
qed

lemma fold_max_mem: "x \<in> set ids \<Longrightarrow> x \<le> fold max ids (seq::int)"
proof (induction ids arbitrary: seq)
  case Nil
  then show ?case by simp
next
  case (Cons y ys)
  show ?case
  proof (cases "x = y")
    case True
    have "x \<le> max y seq" using True by simp
    also have "\<dots> \<le> fold max ys (max y seq)" by (rule fold_max_ge)
    finally show ?thesis by simp
  next
    case False
    with Cons.prems have "x \<in> set ys" by simp
    then show ?thesis using Cons.IH by simp
  qed
qed

lemma next_rowid_fresh: "x \<in> set ids \<Longrightarrow> x < next_rowid seq ids"
  using fold_max_mem [of x ids seq] by (simp add: next_rowid_def)

text \<open>What one execution of an INSERT does to the connection.\<close>

lemma execute_write_conn:
  assumes "execute_write stmt c = (r, c')"
  shows "db_file c' = db_file c \<and> foreign_keys c' = foreign_keys c \<and> in_transaction c'"
  using assms
  by (auto simp: execute_write_def spend_def Let_def
      split: option.splits nat.splits sum.splits prod.splits)

lemma execute_write_Inr:
  assumes "execute_write stmt c = (Inr x, c')"
  shows "stmt (foreign_keys c) (view c) = Inr (x, view c')"
  using assms
  by (auto simp: execute_write_def spend_def Let_def
      split: option.splits nat.splits sum.splits prod.splits)

lemma execute_bound_conn:
  assumes "execute_bound bound stmt c = (r, c')"
  shows "db_file c' = db_file c \<and> foreign_keys c' = foreign_keys c \<and> in_transaction c'"
proof (cases bound)
  case (Inl e)
  with assms show ?thesis by (auto simp: execute_bound_def)
next
  case (Inr params)
  with assms have "execute_write (stmt params) c = (r, c')" by (simp add: execute_bound_def)
  then show ?thesis by (rule execute_write_conn)
qed

lemma execute_bound_Inr:
  assumes "execute_bound bound stmt c = (Inr x, c')"
  shows "\<exists>params. bound = Inr params \<and> stmt params (foreign_keys c) (view c) = Inr (x, view c')"
proof (cases bound)
  case (Inl e)
  with assms show ?thesis by (simp add: execute_bound_def)
next
  case (Inr params)
  with assms have "execute_write (stmt params) c = (Inr x, c')" by (simp add: execute_bound_def)
  from execute_write_Inr [OF this] Inr show ?thesis by simp
qed

lemma execute_rows_conn:
  "execute_rows rows c = (r, c') \<Longrightarrow>
   db_file c' = db_file c \<and> foreign_keys c' = foreign_keys c \<and>
   (in_transaction c \<longrightarrow> in_transaction c')"
proof (induction rows arbitrary: c)
  case Nil
  then show ?case by simp
next
  case (Cons row rows)
  obtain r1 c1 where w: "execute_bound (bind_products row) insert_products_bound c = (r1, c1)"
    by (cases "execute_bound (bind_products row) insert_products_bound c")
  note c1 = execute_bound_conn [OF w]
  show ?case
  proof (cases r1)
    case (Inl e)
    with w Cons.prems c1 show ?thesis by simp
  next
    case (Inr u)
    with w Cons.prems have "execute_rows rows c1 = (r, c')" by simp
    from Cons.IH [OF this] c1 show ?thesis by simp
  qed
qed

text \<open>
  Binding: a tuple that is bound and passes the \<open>NOT NULL\<close> constraints is a storable
  one, and the statement runs on the values it is stored as.
\<close>

lemma bind_float_Some: "bind_float x = Some r \<Longrightarrow> is_number x \<and> number x = r"
  by (cases x) (simp_all add: bind_float_def is_number_def number_def)

lemma bind_float_number: "is_number x \<Longrightarrow> bind_float x = Some (number x)"
  by (cases x) (simp_all add: bind_float_def is_number_def number_def)

lemma insert_products_bound_Inr:
  assumes "bind_products row = Inr b" and "insert_products_bound b fk st = Inr (u, st')"
  shows "storable_values row \<and>
         insert_or_replace_into_products (stored_values row) fk st = Inr (u, st')"
proof (cases row rule: bind_products.cases)
  case (1 summary_id asin title revenue units sessions conversion_rate refunds bb)
  from assms(1) obtain sid' units' sessions' refunds'
    where i: "bind_int summary_id = Inr sid'" "bind_int units = Inr units'"
        "bind_int sessions = Inr sessions'" "bind_int refunds = Inr refunds'"
      and b: "b = (sid', asin, title, bind_float revenue, units', sessions',
                   bind_float conversion_rate, refunds', stored_buy_box bb)"
    unfolding 1 by (auto simp: stored_buy_box_def split: sum.splits)
  note j = i [THEN bind_int_Inr]
  from assms(2) obtain r c where f: "bind_float revenue = Some r" "bind_float conversion_rate = Some c"
    and ins: "insert_or_replace_into_products
        (sid', asin, title, r, units', sessions', c, refunds', stored_buy_box bb) fk st = Inr (u, st')"
    unfolding b by (auto split: if_splits option.splits)
  note g = f [THEN bind_float_Some]
  from j g have "storable_values row" unfolding 1 by simp
  moreover from ins j g
  have "insert_or_replace_into_products (stored_values row) fk st = Inr (u, st')"
    unfolding 1 by simp
  ultimately show ?thesis by simp
qed

lemma insert_summaries_bound_Inr:
  assumes "bind_summaries
             (start_date, end_date, source, total_revenue, total_units, total_sessions,
              conversion_rate, refund_rate, created_at) = Inr b"
    and "insert_summaries_bound b st = Inr (k, st')"
  shows "is_number total_revenue \<and> is_number conversion_rate \<and> is_number refund_rate \<and>
         fits_int64 total_units \<and> fits_int64 total_sessions \<and>
         insert_into_summaries
           (start_date, end_date, source, number total_revenue, total_units, total_sessions,
            number conversion_rate, number refund_rate, created_at) st = Inr (k, st')"
proof -
  from assms(1) obtain units' sessions'
    where i: "bind_int total_units = Inr units'" "bind_int total_sessions = Inr sessions'"
      and b: "b = (start_date, end_date, source, bind_float total_revenue, units', sessions',
                   bind_float conversion_rate, bind_float refund_rate, created_at)"
    by (auto split: sum.splits)
  note j = i [THEN bind_int_Inr]
  from assms(2) obtain r c f
    where f: "bind_float total_revenue = Some r" "bind_float conversion_rate = Some c"
        "bind_float refund_rate = Some f"
      and ins: "insert_into_summaries
        (start_date, end_date, source, r, units', sessions', c, f, created_at) st = Inr (k, st')"
    unfolding b by (auto split: if_splits option.splits)
  note g = f [THEN bind_float_Some]
  from ins j g show ?thesis by simp
qed

text \<open>The effect of one INSERT OR REPLACE, and of a run of them.\<close>

lemma stored_key_params_of: "stored_key r = row_key (params_of r)"
  by (simp add: stored_key_def row_key_def params_of_def)

lemma insert_or_replace_Inr:
  assumes "insert_or_replace_into_products row fk st = Inr (u, st')"
  shows "\<exists>ps new. products st = Some ps \<and> params_of new = row \<and>
           st' = st\<lparr>products := Some (filter (\<lambda>r. stored_key r \<noteq> row_key row) ps @ [new]),
                     seq_products := p_id new\<rparr>"
proof (cases "(row, fk, st)" rule: insert_or_replace_into_products.cases)
  case (1 summary_id asin title revenue units sessions conversion_rate refunds bb fk0 st0)
  then have row: "row = (summary_id, asin, title, revenue, units, sessions, conversion_rate,
      refunds, bb)" by simp
  from assms obtain ps where ps: "products st = Some ps"
    unfolding row by (auto split: option.splits)
  let ?new = "\<lparr>p_id = next_rowid (seq_products st) (map p_id ps), p_summary_id = summary_id,
      p_asin = asin, p_title = title, p_revenue = revenue, p_units = units,
      p_sessions = sessions, p_conversion_rate = conversion_rate, p_refunds = refunds,
      p_buy_box_percentage = bb\<rparr>"
  have k: "(\<lambda>r. \<not> (p_summary_id r = summary_id \<and> p_asin r = asin)) =
           (\<lambda>r. stored_key r \<noteq> row_key row)"
    by (auto simp: stored_key_def row_key_def row)
  from assms ps have "st' = st\<lparr>products := Some (filter (\<lambda>r. stored_key r \<noteq> row_key row) ps @ [?new]),
                     seq_products := p_id ?new\<rparr>"
    unfolding row [symmetric] k [symmetric] unfolding row
    by (simp add: Let_def split: if_splits)
  moreover have "params_of ?new = row"
    by (simp add: params_of_def row)
  ultimately show ?thesis using ps by blast
qed

lemma execute_rows_Inr:
  "execute_rows rows c = (Inr u, c') \<Longrightarrow> products (view c) = Some ps \<Longrightarrow>
   \<exists>new k. list_all storable_values rows \<and>
     map params_of new = last_wins (map stored_values rows) \<and>
     view c' = (view c)\<lparr>products :=
                  Some (filter (\<lambda>r. stored_key r \<notin> row_key ` set (map stored_values rows)) ps @
                        new),
                seq_products := k\<rparr>"
proof (induction rows arbitrary: c ps)
  case Nil
  then have "view c' = (view c)\<lparr>products := Some (filter (\<lambda>r. True) ps @ []),
      seq_products := seq_products (view c)\<rparr>" by simp
  then show ?case by (intro exI [of _ "[]"] exI [of _ "seq_products (view c)"]) simp
next
  case (Cons row rows)
  let ?keys = "row_key ` set (map stored_values rows)"
  obtain r1 c1 where w: "execute_bound (bind_products row) insert_products_bound c = (r1, c1)"
    by (cases "execute_bound (bind_products row) insert_products_bound c")
  with Cons.prems(1) obtain u1 where r1: "r1 = Inr u1"
    by (cases r1) auto
  with w Cons.prems(1) have rest: "execute_rows rows c1 = (Inr u, c')" by simp
  from execute_bound_Inr [OF w [unfolded r1]]
  obtain b where "bind_products row = Inr b"
    and "insert_products_bound b (foreign_keys c) (view c) = Inr (u1, view c1)"
    by auto
  from insert_products_bound_Inr [OF this]
  have ok: "storable_values row"
    and "insert_or_replace_into_products (stored_values row) (foreign_keys c) (view c) =
           Inr (u1, view c1)"
    by simp_all
  from insert_or_replace_Inr [OF this(2)] Cons.prems(2)
  obtain n1 where n1: "params_of n1 = stored_values row"
    and v1: "view c1 = (view c)\<lparr>products :=
                Some (filter (\<lambda>r. stored_key r \<noteq> row_key (stored_values row)) ps @ [n1]),
              seq_products := p_id n1\<rparr>"
    by auto
  let ?ps1 = "filter (\<lambda>r. stored_key r \<noteq> row_key (stored_values row)) ps @ [n1]"
  have "products (view c1) = Some ?ps1" by (simp add: v1)
  from Cons.IH [OF rest this]
  obtain new k where oks: "list_all storable_values rows"
    and new: "map params_of new = last_wins (map stored_values rows)"
    and v: "view c' = (view c1)\<lparr>products :=
                Some (filter (\<lambda>r. stored_key r \<notin> ?keys) ?ps1 @ new),
              seq_products := k\<rparr>"
    by auto
  let ?new = "filter (\<lambda>r. stored_key r \<notin> ?keys) [n1] @ new"
  have key1: "stored_key n1 = row_key (stored_values row)"
    by (simp add: stored_key_params_of n1)
  have "list_all storable_values (row # rows)"
    using ok oks by simp
  moreover have "map params_of ?new = last_wins (map stored_values (row # rows))"
    by (simp add: new key1 n1)
  moreover have "filter (\<lambda>r. stored_key r \<notin> ?keys) ?ps1 @ new =
      filter (\<lambda>r. stored_key r \<notin> row_key ` set (map stored_values (row # rows))) ps @ ?new"
    by (simp add: conj_commute)
  then have "view c' = (view c)\<lparr>products :=
                Some (filter (\<lambda>r. stored_key r \<notin>
                        row_key ` set (map stored_values (row # rows))) ps @ ?new),
              seq_products := k\<rparr>"
    using v v1 by simp
  ultimately show ?case by blast
qed

lemma stored_values_product_row: "stored_values (product_row k p) = stored_row k p"
  by (simp add: product_row_def stored_row_def)

lemma storable_values_product_row:
  "storable_values (product_row k p) \<longleftrightarrow> fits_int64 k \<and> storable_product p"
  by (auto simp: product_row_def storable_product_def)

text \<open>\<open>save_summary\<close>, step by step.\<close>

lemma save_summary_closed:
  "\<not> parent_exists st \<Longrightarrow> save_summary budget now s st = (Inl OperationalError, st)"
  by (simp add: save_summary_def with_connection_def connect_def)

lemma save_summary_steps:
  assumes "parent_exists st"
  shows "save_summary budget now s st =
     (case execute_bound (bind_summaries
              (isoformat (ds_start s), isoformat (ds_end s), ds_source_name s,
               t_total_revenue (ds_totals s), t_total_units (ds_totals s),
               t_total_sessions (ds_totals s), t_conversion_rate (ds_totals s),
               t_refund_rate (ds_totals s), now))
            (\<lambda>params _. insert_summaries_bound params)
            ((fresh_connection budget st)\<lparr>foreign_keys := True\<rparr>) of
        (Inl e, c) \<Rightarrow> (Inl e, db_file (rollback c))
      | (Inr k, c) \<Rightarrow>
          (case executemany (map (product_row k) (ds_top_products s)) c of
             (Inl e, c') \<Rightarrow> (Inl e, db_file (rollback c'))
           | (Inr _, c') \<Rightarrow> (Inr k, db_file (commit c'))))"
  using assms
  by (simp add: save_summary_def with_connection_def connect_def pragma_foreign_keys_on_def
      fresh_connection_def Let_def split: prod.splits sum.splits)

lemma executemany_conn:
  assumes "executemany rows c = (r, c')"
  shows "db_file c' = db_file c \<and> foreign_keys c' = foreign_keys c \<and>
         (in_transaction c \<longrightarrow> in_transaction c')"
proof (cases "products (view c) = None")
  case True
  with assms show ?thesis by (simp add: executemany_def)
next
  case False
  with assms have "execute_rows rows c = (r, c')" by (simp add: executemany_def)
  then show ?thesis by (rule execute_rows_conn)
qed

lemma save_summary_Inl:
  assumes "save_summary budget now s st = (Inl e, st')"
  shows "st' = st"
proof (cases "parent_exists st")
  case False
  with assms show ?thesis by (simp add: save_summary_closed)
next
  case True
  let ?c1 = "(fresh_connection budget st)\<lparr>foreign_keys := True\<rparr>"
  let ?bound = "bind_summaries
              (isoformat (ds_start s), isoformat (ds_end s), ds_source_name s,
               t_total_revenue (ds_totals s), t_total_units (ds_totals s),
               t_total_sessions (ds_totals s), t_conversion_rate (ds_totals s),
               t_refund_rate (ds_totals s), now)"
  let ?ins = "\<lambda>params (_::bool). insert_summaries_bound params"
  obtain r1 c2 where w: "execute_bound ?bound ?ins ?c1 = (r1, c2)"
    by (cases "execute_bound ?bound ?ins ?c1")
  from execute_bound_conn [OF w]
  have c2: "db_file c2 = st" "in_transaction c2" by (simp_all add: fresh_connection_def)
  show ?thesis
  proof (cases r1)
    case (Inl e1)
    with assms w c2 show ?thesis
      by (simp add: save_summary_steps [OF True] rollback_def)
  next
    case (Inr k)
    obtain r2 c3 where m: "executemany (map (product_row k) (ds_top_products s)) c2 = (r2, c3)"
      by (cases "executemany (map (product_row k) (ds_top_products s)) c2")
    from executemany_conn [OF m] c2
    have c3: "db_file c3 = st" "in_transaction c3" by simp_all
    from assms w Inr m c3 show ?thesis
      by (cases r2) (simp_all add: save_summary_steps [OF True] rollback_def)
  qed
qed

lemma save_summary_Inr:
  assumes "save_summary budget now s st = (Inr k, st')"
  shows "\<exists>hs ps new kp.
           parent_exists st \<and> summaries st = Some hs \<and> products st = Some ps \<and>
           storable_summary s \<and>
           k = next_rowid (seq_summaries st) (map s_id hs) \<and>
           map params_of new = last_wins (map (stored_row k) (ds_top_products s)) \<and>
           st' = st\<lparr>summaries := Some (hs @ [header_row k now s]), seq_summaries := k,
                     products := Some (filter (\<lambda>r. stored_key r \<notin>
                         row_key ` set (map (stored_row k) (ds_top_products s))) ps @ new),
                     seq_products := kp\<rparr>"
proof (cases "parent_exists st")
  case False
  with assms show ?thesis by (simp add: save_summary_closed)
next
  case True
  let ?c1 = "(fresh_connection budget st)\<lparr>foreign_keys := True\<rparr>"
  let ?bound = "bind_summaries
              (isoformat (ds_start s), isoformat (ds_end s), ds_source_name s,
               t_total_revenue (ds_totals s), t_total_units (ds_totals s),
               t_total_sessions (ds_totals s), t_conversion_rate (ds_totals s),
               t_refund_rate (ds_totals s), now)"
  let ?ins = "\<lambda>params (_::bool). insert_summaries_bound params"
  let ?rows = "map (product_row k) (ds_top_products s)"
  let ?stored = "map (stored_row k) (ds_top_products s)"
  obtain r1 c2 where w: "execute_bound ?bound ?ins ?c1 = (r1, c2)"
    by (cases "execute_bound ?bound ?ins ?c1")
  from execute_bound_conn [OF w]
  have c2: "db_file c2 = st" "in_transaction c2" by (simp_all add: fresh_connection_def)
  from assms w c2 obtain k1 where r1: "r1 = Inr k1"
    by (cases r1) (auto simp: save_summary_steps [OF True] rollback_def)
  obtain r2 c3 where m: "executemany (map (product_row k1) (ds_top_products s)) c2 = (r2, c3)"
    by (cases "executemany (map (product_row k1) (ds_top_products s)) c2")
  from executemany_conn [OF m] c2
  have c3: "db_file c3 = st" "in_transaction c3" by simp_all
  from assms w r1 m c3 obtain u where r2: "r2 = Inr u" and k1: "k1 = k"
    and st': "st' = view c3"
    by (cases r2) (auto simp: save_summary_steps [OF True] rollback_def commit_def)
  from execute_bound_Inr [OF w [unfolded r1 k1]]
  obtain b where "?bound = Inr b" and "insert_summaries_bound b st = Inr (k, view c2)"
    by (auto simp: fresh_connection_def)
  from insert_summaries_bound_Inr [OF this]
  have totals: "is_number (t_total_revenue (ds_totals s))"
      "is_number (t_conversion_rate (ds_totals s))" "is_number (t_refund_rate (ds_totals s))"
      "fits_int64 (t_total_units (ds_totals s))" "fits_int64 (t_total_sessions (ds_totals s))"
    and "insert_into_summaries
              (isoformat (ds_start s), isoformat (ds_end s), ds_source_name s,
               number (t_total_revenue (ds_totals s)), t_total_units (ds_totals s),
               t_total_sessions (ds_totals s), number (t_conversion_rate (ds_totals s)),
               number (t_refund_rate (ds_totals s)), now) st = Inr (k, view c2)"
    by simp_all
  then obtain hs where hs: "summaries st = Some hs"
    and k: "k = next_rowid (seq_summaries st) (map s_id hs)"
    and v2: "view c2 = st\<lparr>summaries := Some (hs @ [header_row k now s]), seq_summaries := k\<rparr>"
    by (auto simp: header_row_def Let_def split: option.splits)
  from m [unfolded k1 r2] obtain ps where ps: "products (view c2) = Some ps"
    and rows: "execute_rows ?rows c2 = (Inr u, c3)"
    by (cases "products (view c2)") (auto simp: executemany_def)
  have stored: "map stored_values ?rows = ?stored"
    by (simp add: o_def stored_values_product_row)
  from execute_rows_Inr [OF rows ps]
  obtain new kp where oks: "list_all storable_values ?rows"
    and new: "map params_of new = last_wins ?stored"
    and v3: "view c3 = (view c2)\<lparr>products :=
                Some (filter (\<lambda>r. stored_key r \<notin> row_key ` set ?stored) ps @ new),
              seq_products := kp\<rparr>"
    unfolding stored by auto
  from oks have "list_all storable_product (ds_top_products s)"
    by (simp add: list_all_iff storable_values_product_row)
  with totals have "storable_summary s"
    by (simp add: storable_summary_def)
  moreover from ps v2 have "products st = Some ps" by simp
  moreover from st' v3 v2
  have "st' = st\<lparr>summaries := Some (hs @ [header_row k now s]), seq_summaries := k,
                   products := Some (filter (\<lambda>r. stored_key r \<notin> row_key ` set ?stored) ps @ new),
                   seq_products := kp\<rparr>"
    by simp
  ultimately show ?thesis using True hs k new by blast
qed

lemma row_key_last_wins: "row_key ` set (last_wins rows) = row_key ` set rows"
  by (induction rows) auto

lemma last_wins_distinct: "distinct (map row_key rows) \<Longrightarrow> last_wins rows = rows"
  by (induction rows) auto

lemma row_key_stored_row: "row_key (stored_row k p) = (k, pp_asin p)"
  by (simp add: row_key_def stored_row_def)

lemma distinct_stored_rows:
  "distinct (map pp_asin tops) \<Longrightarrow> distinct (map row_key (map (stored_row k) tops))"
  by (simp add: o_def row_key_stored_row distinct_map inj_on_def)

lemma last_wins_stored_rows:
  "last_wins (map (stored_row k) tops) = map (stored_row k) (last_entries tops)"
  by (induction tops) (auto simp: row_key_stored_row image_iff)

lemma last_entries_distinct: "distinct (map pp_asin tops) \<Longrightarrow> last_entries tops = tops"
  by (induction tops) auto

text \<open>
  With both tables in place, a storable summary, a key that fits and an engine that does
  not fail, the call succeeds.
\<close>

lemma execute_write_unlimited:
  assumes "write_budget c = None"
  shows "execute_write stmt c =
     (case stmt (foreign_keys c) (view c) of
        Inl e \<Rightarrow> (Inl e, c\<lparr>in_transaction := True\<rparr>)
      | Inr (r, v) \<Rightarrow> (Inr r, c\<lparr>in_transaction := True, view := v\<rparr>))"
  using assms by (simp add: execute_write_def spend_def split: sum.splits)

lemma insert_or_replace_succeeds:
  assumes "products st = Some ps" and "has_summary st (fst row)"
  shows "\<exists>st'. insert_or_replace_into_products row fk st = Inr ((), st') \<and>
           products st' \<noteq> None \<and> summaries st' = summaries st"
proof (cases "(row, fk, st)" rule: insert_or_replace_into_products.cases)
  case (1 summary_id asin title revenue units sessions conversion_rate refunds bb fk0 st0)
  then have row: "row = (summary_id, asin, title, revenue, units, sessions, conversion_rate,
      refunds, bb)" by simp
  from assms show ?thesis unfolding row by (simp add: Let_def)
qed

lemma bind_products_storable:
  assumes "storable_values row"
  shows "\<exists>b. bind_products row = Inr b \<and> fst (stored_values row) = fst row \<and>
           (\<forall>fk st. products st \<noteq> None \<longrightarrow>
              insert_products_bound b fk st =
              insert_or_replace_into_products (stored_values row) fk st)"
proof (cases row rule: bind_products.cases)
  case (1 summary_id asin title revenue units sessions conversion_rate refunds bb)
  from assms show ?thesis
    unfolding 1
    by (simp add: bind_int_fits bind_float_number stored_buy_box_def)
qed

lemma execute_rows_succeeds:
  "write_budget c = None \<Longrightarrow> products (view c) \<noteq> None \<Longrightarrow>
   list_all storable_values rows \<Longrightarrow>
   list_all (\<lambda>row. has_summary (view c) (fst row)) rows \<Longrightarrow>
   \<exists>c'. execute_rows rows c = (Inr (), c')"
proof (induction rows arbitrary: c)
  case Nil
  show ?case by simp
next
  case (Cons row rows)
  from Cons.prems obtain ps where ps: "products (view c) = Some ps" by auto
  from Cons.prems have "storable_values row" by simp
  from bind_products_storable [OF this]
  obtain b where b: "bind_products row = Inr b"
    and f: "fst (stored_values row) = fst row"
    and every: "\<forall>fk st. products st \<noteq> None \<longrightarrow>
              insert_products_bound b fk st =
              insert_or_replace_into_products (stored_values row) fk st"
    by blast
  from every ps
  have i: "insert_products_bound b (foreign_keys c) (view c) =
           insert_or_replace_into_products (stored_values row) (foreign_keys c) (view c)"
    by (simp del: insert_products_bound.simps insert_or_replace_into_products.simps)
  from Cons.prems f have h: "has_summary (view c) (fst (stored_values row))" by simp
  from insert_or_replace_succeeds [OF ps h, of "foreign_keys c"]
  obtain v
    where v: "insert_or_replace_into_products (stored_values row) (foreign_keys c) (view c) =
              Inr ((), v)"
      and pv: "products v \<noteq> None" and sv: "summaries v = summaries (view c)"
    by auto
  let ?c1 = "c\<lparr>in_transaction := True, view := v\<rparr>"
  have w: "execute_bound (bind_products row) insert_products_bound c = (Inr (), ?c1)"
    using v i b by (simp add: execute_bound_def execute_write_unlimited [OF Cons.prems(1)])
  have "list_all (\<lambda>row. has_summary (view ?c1) (fst row)) rows"
    using Cons.prems(4) sv by (simp add: has_summary_def)
  with Cons.IH [of ?c1] Cons.prems(1,3) pv
  obtain c' where "execute_rows rows ?c1 = (Inr (), c')" by auto
  with w show ?case by simp
qed

lemma save_summary_succeeds:
  assumes "initialized st" and "storable_summary s" and "summaries st = Some hs"
    and "fits_int64 (next_rowid (seq_summaries st) (map s_id hs))"
  shows "\<exists>st'. save_summary None now s st =
           (Inr (next_rowid (seq_summaries st) (map s_id hs)), st')"
proof -
  from assms(1) obtain ps where p: "parent_exists st" and ps: "products st = Some ps"
    by (auto simp: initialized_def)
  note hs = assms(3)
  let ?k = "next_rowid (seq_summaries st) (map s_id hs)"
  let ?v = "st\<lparr>summaries := Some (hs @ [header_row ?k now s]), seq_summaries := ?k\<rparr>"
  let ?c2 = "(fresh_connection None st)\<lparr>foreign_keys := True, in_transaction := True, view := ?v\<rparr>"
  from assms(2)
  have totals: "is_number (t_total_revenue (ds_totals s))"
      "is_number (t_conversion_rate (ds_totals s))" "is_number (t_refund_rate (ds_totals s))"
      "fits_int64 (t_total_units (ds_totals s))" "fits_int64 (t_total_sessions (ds_totals s))"
    and tops: "list_all storable_product (ds_top_products s)"
    by (simp_all add: storable_summary_def)
  have w: "execute_bound (bind_summaries
              (isoformat (ds_start s), isoformat (ds_end s), ds_source_name s,
               t_total_revenue (ds_totals s), t_total_units (ds_totals s),
               t_total_sessions (ds_totals s), t_conversion_rate (ds_totals s),
               t_refund_rate (ds_totals s), now))
            (\<lambda>params _. insert_summaries_bound params)
            ((fresh_connection None st)\<lparr>foreign_keys := True\<rparr>) = (Inr ?k, ?c2)"
    using hs totals
    by (simp add: execute_bound_def execute_write_unlimited fresh_connection_def
        header_row_def Let_def bind_int_fits bind_float_number)
  have "list_all (\<lambda>row. has_summary (view ?c2) (fst row))
          (map (product_row ?k) (ds_top_products s))"
    by (simp add: list_all_iff has_summary_def product_row_def header_row_def)
  moreover have "list_all storable_values (map (product_row ?k) (ds_top_products s))"
    using tops assms(4) by (simp add: list_all_iff storable_values_product_row)
  moreover have "write_budget ?c2 = None" "products (view ?c2) \<noteq> None"
    using ps by (simp_all add: fresh_connection_def)
  ultimately obtain c3
    where "execute_rows (map (product_row ?k) (ds_top_products s)) ?c2 = (Inr (), c3)"
    using execute_rows_succeeds by blast
  then have "executemany (map (product_row ?k) (ds_top_products s)) ?c2 = (Inr (), c3)"
    using ps by (simp add: executemany_def)
  with w show ?thesis
    by (simp add: save_summary_steps [OF p])
qed

text \<open>
  C1. \<open>save_summary\<close> is all or nothing. If the call raises, at whichever insert and
  for whichever reason (a missing table, a value that cannot be bound or stored, a
  failure of the engine), the store is the store before the call: neither the header row nor any line-item row of the call is in
  it. If the call returns key \<open>k\<close>, the store holds the header row of \<open>k\<close> and, for every
  product entry of the input, a line-item row of \<open>k\<close> with the entry's identifier; with
  pairwise distinct identifiers, a row with exactly the entry's values.
\<close>

theorem save_summary_atomic:
  "(\<forall>e st'. save_summary budget now s st = (Inl e, st') \<longrightarrow> st' = st) \<and>
   (\<forall>k st'. save_summary budget now s st = (Inr k, st') \<longrightarrow>
      (\<exists>hs ps. summaries st' = Some hs \<and> products st' = Some ps \<and>
         header_row k now s \<in> set hs \<and>
         (\<forall>p\<in>set (ds_top_products s).
            \<exists>r\<in>set ps. p_summary_id r = k \<and> p_asin r = pp_asin p) \<and>
         (distinct (map pp_asin (ds_top_products s)) \<longrightarrow>
            (\<forall>p\<in>set (ds_top_products s). \<exists>r\<in>set ps. params_of r = stored_row k p))))"
proof (intro conjI allI impI)
  fix e st'
  assume "save_summary budget now s st = (Inl e, st')"
  then show "st' = st" by (rule save_summary_Inl)
next
  fix k st'
  assume "save_summary budget now s st = (Inr k, st')"
  from save_summary_Inr [OF this]
  obtain hs ps new kp
    where new: "map params_of new = last_wins (map (stored_row k) (ds_top_products s))"
      and st': "st' = st\<lparr>summaries := Some (hs @ [header_row k now s]), seq_summaries := k,
                     products := Some (filter (\<lambda>r. stored_key r \<notin>
                         row_key ` set (map (stored_row k) (ds_top_products s))) ps @ new),
                     seq_products := kp\<rparr>"
    by blast
  let ?rows = "map (stored_row k) (ds_top_products s)"
  let ?ps' = "filter (\<lambda>r. stored_key r \<notin> row_key ` set ?rows) ps @ new"
  have keys: "stored_key ` set new = row_key ` set ?rows"
  proof -
    have "stored_key ` set new = row_key ` set (map params_of new)"
      by (simp add: image_image stored_key_params_of)
    then show ?thesis by (simp only: new row_key_last_wins)
  qed
  have each: "\<forall>p\<in>set (ds_top_products s).
      \<exists>r\<in>set ?ps'. p_summary_id r = k \<and> p_asin r = pp_asin p"
  proof
    fix p
    assume "p \<in> set (ds_top_products s)"
    then have "(k, pp_asin p) \<in> row_key ` set ?rows"
      by (auto simp: row_key_stored_row [symmetric])
    with keys have "(k, pp_asin p) \<in> stored_key ` set new" by simp
    then obtain r where "r \<in> set new" "stored_key r = (k, pp_asin p)"
      by (metis imageE)
    then show "\<exists>r\<in>set ?ps'. p_summary_id r = k \<and> p_asin r = pp_asin p"
      by (auto simp: stored_key_def)
  qed
  have exact: "distinct (map pp_asin (ds_top_products s)) \<longrightarrow>
      (\<forall>p\<in>set (ds_top_products s). \<exists>r\<in>set ?ps'. params_of r = stored_row k p)"
  proof (intro impI ballI)
    fix p
    assume d: "distinct (map pp_asin (ds_top_products s))"
      and p: "p \<in> set (ds_top_products s)"
    from d have "map params_of new = ?rows"
      by (simp only: new last_wins_distinct [OF distinct_stored_rows])
    with p have "stored_row k p \<in> params_of ` set new"
      by (metis image_eqI list.set_map)
    then show "\<exists>r\<in>set ?ps'. params_of r = stored_row k p" by auto
  qed
  show "\<exists>hs ps. summaries st' = Some hs \<and> products st' = Some ps \<and>
         header_row k now s \<in> set hs \<and>
         (\<forall>p\<in>set (ds_top_products s).
            \<exists>r\<in>set ps. p_summary_id r = k \<and> p_asin r = pp_asin p) \<and>
         (distinct (map pp_asin (ds_top_products s)) \<longrightarrow>
            (\<forall>p\<in>set (ds_top_products s). \<exists>r\<in>set ps. params_of r = stored_row k p))"
    using each exact by (intro exI [of _ "hs @ [header_row k now s]"] exI [of _ ?ps'])
      (simp add: st')
qed


lemmas run_defs =
  save_summary_def with_connection_def connect_def pragma_foreign_keys_on_def
  execute_bound_def execute_write_def spend_def executemany_def product_row_def
  bind_int_def bind_float_def next_rowid_def has_summary_def
  commit_def rollback_def Let_def isoformat_def digit_char_def
  example_summary_def example_product_def empty_store_def example_clock_def
  roundtrip_summary_def duplicate_summary_def

lemma roundtrip_save_fails_midway:
  "fst (save_summary (Some 2) example_clock roundtrip_summary empty_store) = Inl OperationalError"
  by (simp add: run_defs)

lemma roundtrip_save_key:
  "fst (save_summary None example_clock roundtrip_summary empty_store) = Inr 1"
  by (simp add: run_defs)

theorem save_summary_atomic_witness:
  "fst (save_summary (Some 2) example_clock roundtrip_summary empty_store)
     = Inl OperationalError \<and>
   snd (save_summary (Some 2) example_clock roundtrip_summary empty_store) = empty_store \<and>
   fst (save_summary None example_clock roundtrip_summary empty_store) = Inr 1 \<and>
   (\<exists>hs ps.
      summaries (snd (save_summary None example_clock roundtrip_summary empty_store)) = Some hs \<and>
      products (snd (save_summary None example_clock roundtrip_summary empty_store)) = Some ps \<and>
      header_row 1 example_clock roundtrip_summary \<in> set hs \<and>
      (\<exists>r\<in>set ps. params_of r = stored_row 1 (example_product ''P1'' 600)))"
proof -
  let ?s = roundtrip_summary
  let ?t = example_clock
  have d: "distinct (map pp_asin (ds_top_products ?s))"
    by (simp add: roundtrip_summary_def example_summary_def example_product_def)
  have m: "example_product ''P1'' 600 \<in> set (ds_top_products ?s)"
    by (simp add: roundtrip_summary_def example_summary_def)
  obtain st1 where 1: "save_summary (Some 2) ?t ?s empty_store = (Inl OperationalError, st1)"
    using roundtrip_save_fails_midway by (metis prod.collapse)
  obtain st2 where 2: "save_summary None ?t ?s empty_store = (Inr 1, st2)"
    using roundtrip_save_key by (metis prod.collapse)
  from save_summary_atomic [of "Some 2" ?t ?s empty_store] 1
  have "st1 = empty_store" by blast
  moreover
  from save_summary_atomic [of None ?t ?s empty_store] 2 d m
  have "\<exists>hs ps. summaries st2 = Some hs \<and> products st2 = Some ps \<and>
      header_row 1 ?t ?s \<in> set hs \<and>
      (\<exists>r\<in>set ps. params_of r = stored_row 1 (example_product ''P1'' 600))"
    by blast
  ultimately show ?thesis using 1 2 by simp
qed

text \<open>Line-items of a store with referential integrity carry keys of stored headers.\<close>

lemma referential_integrity_fresh:
  assumes "referential_integrity st" and "summaries st = Some hs" and "products st = Some ps"
  shows "filter (\<lambda>r. stored_key r \<notin> row_key ` set (map (stored_row
           (next_rowid (seq_summaries st) (map s_id hs))) tops)) ps = ps \<and>
         filter (\<lambda>r. p_summary_id r = next_rowid (seq_summaries st) (map s_id hs)) ps = []"
proof -
  let ?k = "next_rowid (seq_summaries st) (map s_id hs)"
  have old: "p_summary_id r \<noteq> ?k" if "r \<in> set ps" for r
  proof -
    from assms that have "p_summary_id r \<in> set (map s_id hs)"
      by (auto simp: referential_integrity_def has_summary_def list_all_iff)
    from next_rowid_fresh [OF this, of "seq_summaries st"] show ?thesis by simp
  qed
  then have "\<forall>r\<in>set ps. stored_key r \<notin> row_key ` set (map (stored_row ?k) tops)"
    by (auto simp: stored_key_def row_key_stored_row)
  then have "filter (\<lambda>r. stored_key r \<notin> row_key ` set (map (stored_row ?k) tops)) ps = ps"
    by (simp add: filter_id_conv)
  moreover from old have "filter (\<lambda>r. p_summary_id r = ?k) ps = []"
    by (auto simp: filter_empty_conv)
  ultimately show ?thesis by simp
qed

text \<open>
  C9, as amended. A successful \<open>save_summary\<close> call appends exactly one header row,
  under a key that no stored header has, and returns that key. Under that key it stores
  the product entries of the input in their order, except that of several entries with
  the same product identifier only the last is stored; with pairwise distinct
  identifiers that is one row per entry. Stored line-items with the same key and
  identifier are replaced, and in a store where every line-item belongs to a header
  there is none. A call succeeds on a storable summary only.
\<close>

theorem save_summary_rows:
  assumes "save_summary budget now s st = (Inr k, st')"
  shows "\<exists>hs ps new.
           summaries st = Some hs \<and> products st = Some ps \<and> k \<notin> s_id ` set hs \<and>
           summaries st' = Some (hs @ [header_row k now s]) \<and>
           products st' = Some (filter (\<lambda>r. stored_key r \<notin>
               row_key ` set (map (stored_row k) (ds_top_products s))) ps @ new) \<and>
           map params_of new = last_wins (map (stored_row k) (ds_top_products s)) \<and>
           (distinct (map pp_asin (ds_top_products s)) \<longrightarrow>
              map params_of new = map (stored_row k) (ds_top_products s)) \<and>
           (referential_integrity st \<longrightarrow> products st' = Some (ps @ new)) \<and>
           storable_summary s"
proof -
  let ?rows = "map (stored_row k) (ds_top_products s)"
  from save_summary_Inr [OF assms]
  obtain hs ps new kp
    where hs: "summaries st = Some hs" and ps: "products st = Some ps"
      and ok: "storable_summary s"
      and k: "k = next_rowid (seq_summaries st) (map s_id hs)"
      and new: "map params_of new = last_wins ?rows"
      and st': "st' = st\<lparr>summaries := Some (hs @ [header_row k now s]), seq_summaries := k,
                     products := Some (filter (\<lambda>r. stored_key r \<notin> row_key ` set ?rows) ps @ new),
                     seq_products := kp\<rparr>"
    by blast
  have "k \<notin> s_id ` set hs"
    using next_rowid_fresh [of k "map s_id hs" "seq_summaries st"] k by auto
  moreover have "distinct (map pp_asin (ds_top_products s)) \<longrightarrow> map params_of new = ?rows"
    by (simp only: new) (simp add: last_wins_distinct [OF distinct_stored_rows])
  moreover have "referential_integrity st \<longrightarrow> products st' = Some (ps @ new)"
    using referential_integrity_fresh [OF _ hs ps, of "ds_top_products s"]
    by (simp add: st' k)
  ultimately show ?thesis using hs ps new ok by (simp add: st')
qed

theorem save_summary_rows_witness:
  "fst (save_summary None example_clock roundtrip_summary empty_store) = Inr 1 \<and>
   summaries (snd (save_summary None example_clock roundtrip_summary empty_store)) =
     Some [header_row 1 example_clock roundtrip_summary] \<and>
   (\<exists>new. products (snd (save_summary None example_clock roundtrip_summary empty_store)) =
            Some new \<and>
          map params_of new =
            [stored_row 1 (example_product ''P2'' 400), stored_row 1 (example_product ''P1'' 600)])"
proof -
  obtain st2 where 2: "save_summary None example_clock roundtrip_summary empty_store = (Inr 1, st2)"
    using roundtrip_save_key by (metis prod.collapse)
  have d: "distinct (map pp_asin (ds_top_products roundtrip_summary))"
    by (simp add: roundtrip_summary_def example_summary_def example_product_def)
  from save_summary_rows [OF 2] d
  obtain new where "summaries st2 = Some ([] @ [header_row 1 example_clock roundtrip_summary])"
    and "products st2 = Some ([] @ new)"
    and "map params_of new = map (stored_row 1) (ds_top_products roundtrip_summary)"
    by (auto simp: empty_store_def)
  then show ?thesis
    using 2 by (simp add: roundtrip_summary_def example_summary_def)
qed

text \<open>
  Two product entries with the same identifier leave one line-item row, that of the
  second entry.
\<close>

theorem save_summary_duplicate_identifier:
  "fst (save_summary None example_clock duplicate_summary empty_store) = Inr 1 \<and>
   length (ds_top_products duplicate_summary) = 2 \<and>
   map params_of (the (products (snd (save_summary None example_clock duplicate_summary
     empty_store)))) = [stored_row 1 (example_product ''P1'' 400)]"
  by (simp add: run_defs params_of_def stored_row_def number_def stored_buy_box_def)


subsection \<open>Writing, then reading\<close>

lemma line_item_written:
  "params_of r = stored_row k p \<Longrightarrow> line_item r = written_item p \<and> p_summary_id r = k"
  by (simp add: params_of_def stored_row_def line_item_def written_item_def)

lemma line_items_written:
  "map params_of new = map (stored_row k) tops \<Longrightarrow>
   map line_item new = map written_item tops \<and> filter (\<lambda>r. p_summary_id r = k) new = new"
proof (induction new arbitrary: tops)
  case Nil
  then show ?case by simp
next
  case (Cons r new)
  then obtain p tops' where t: "tops = p # tops'" by (cases tops) auto
  with Cons.prems have "params_of r = stored_row k p"
    and "map params_of new = map (stored_row k) tops'" by simp_all
  with Cons.IH [of tops'] line_item_written [of r k p] t show ?case by simp
qed

text \<open>
  C3, as amended. Let a \<open>save_summary\<close> call succeed on a store in which every
  line-item belongs to a header and no header has the start date of the summary. Then
  \<open>fetch_by_start_date\<close> with that start date returns the record of the returned key
  whose header fields are the written ones (dates in ISO format, the creation time of the
  call) and whose line-items are, in order of revenue, largest first, the written product
  entries, of several entries with the same product identifier only the last; every
  line-item equals its entry field by field, except that a NaN buy-box percentage is
  read back as absent. With pairwise distinct identifiers these are all the written
  entries.
\<close>

theorem save_then_fetch_by_start_date:
  assumes "save_summary budget now s st = (Inr k, st')"
    and "referential_integrity st"
    and "summaries st = Some hs"
    and "\<forall>h\<in>set hs. s_start_date h \<noteq> isoformat (ds_start s)"
  shows "\<exists>prods.
           fetch_by_start_date (isoformat (ds_start s)) st' =
             (Inr (Some (StoredSummary_of (header_row k now s) prods)), st') \<and>
           revenue_descending prods \<and>
           mset prods = mset (map written_item (last_entries (ds_top_products s))) \<and>
           (distinct (map pp_asin (ds_top_products s)) \<longrightarrow>
              mset prods = mset (map written_item (ds_top_products s))) \<and>
           storable_summary s"
proof -
  let ?d = "isoformat (ds_start s)"
  let ?last = "last_entries (ds_top_products s)"
  from save_summary_Inr [OF assms(1)] assms(3)
  obtain ps new kp
    where p: "parent_exists st" and ps: "products st = Some ps"
      and ok: "storable_summary s"
      and k: "k = next_rowid (seq_summaries st) (map s_id hs)"
      and new: "map params_of new = last_wins (map (stored_row k) (ds_top_products s))"
      and st': "st' = st\<lparr>summaries := Some (hs @ [header_row k now s]), seq_summaries := k,
                     products := Some (filter (\<lambda>r. stored_key r \<notin>
                         row_key ` set (map (stored_row k) (ds_top_products s))) ps @ new),
                     seq_products := kp\<rparr>"
    by auto
  from referential_integrity_fresh [OF assms(2,3) ps, of "ds_top_products s"]
  have old: "filter (\<lambda>r. stored_key r \<notin>
                row_key ` set (map (stored_row k) (ds_top_products s))) ps = ps"
    and none: "filter (\<lambda>r. p_summary_id r = k) ps = []"
    by (simp_all add: k)
  have "map params_of new = map (stored_row k) ?last"
    by (simp only: new last_wins_stored_rows)
  from line_items_written [OF this]
  have items: "map line_item new = map written_item ?last"
    and mine: "filter (\<lambda>r. p_summary_id r = k) new = new"
    by simp_all
  let ?ps' = "ps @ new"
  let ?prods = "stored_line_items ?ps' k"
  have p': "parent_exists st'" and hs': "summaries st' = Some (hs @ [header_row k now s])"
    and ps': "products st' = Some ?ps'"
    using p unfolding st' old by simp_all
  have "filter (\<lambda>r. s_start_date r = ?d) (hs @ [header_row k now s]) = [header_row k now s]"
    using assms(4) by (simp add: filter_empty_conv header_row_def)
  moreover have "fetch_products k (fresh_connection None st') =
      (Inr ?prods, fresh_connection None st')"
    by (rule fetch_products_Some) (simp add: view_fresh_connection ps')
  ultimately have "fetch_by_start_date ?d st' =
      (Inr (Some (StoredSummary_of (header_row k now s) ?prods)), st')"
    using fetch_by_start_date_select [OF p' hs', of ?d]
    by (simp add: order_by_desc_single header_row_def)
  moreover have "revenue_descending ?prods"
    by (rule revenue_descending_stored)
  moreover have m: "mset ?prods = mset (map written_item ?last)"
    by (simp add: mset_stored_line_items none mine flip: items)
  moreover have "distinct (map pp_asin (ds_top_products s)) \<longrightarrow>
      mset ?prods = mset (map written_item (ds_top_products s))"
    using m by (simp add: last_entries_distinct)
  ultimately show ?thesis using ok by blast
qed

lemmas fetch_defs =
  fetch_by_start_date_def execute_select_def select_by_start_def order_by_desc_def
  sql_limit_def fetch_products_def select_products_def StoredSummary_of_def header_row_def
  written_item_def number_def stored_buy_box_def

lemma roundtrip_fetch:
  "fetch_by_start_date ''2024-01-01''
     (snd (save_summary None example_clock roundtrip_summary empty_store)) =
   (Inr (Some (StoredSummary_of (header_row 1 example_clock roundtrip_summary)
      [written_item (example_product ''P1'' 600), written_item (example_product ''P2'' 400)])),
    snd (save_summary None example_clock roundtrip_summary empty_store))"
  by (simp add: run_defs fetch_defs)

theorem save_then_fetch_by_start_date_witness:
  "fst (save_summary None example_clock roundtrip_summary empty_store) = Inr 1 \<and>
   isoformat (ds_start roundtrip_summary) = ''2024-01-01'' \<and>
   fetch_by_start_date ''2024-01-01''
     (snd (save_summary None example_clock roundtrip_summary empty_store)) =
   (Inr (Some (StoredSummary_of (header_row 1 example_clock roundtrip_summary)
      [written_item (example_product ''P1'' 600), written_item (example_product ''P2'' 400)])),
    snd (save_summary None example_clock roundtrip_summary empty_store)) \<and>
   revenue_descending
     [written_item (example_product ''P1'' 600), written_item (example_product ''P2'' 400)]"
proof -
  obtain st2 where 2: "save_summary None example_clock roundtrip_summary empty_store = (Inr 1, st2)"
    using roundtrip_save_key by (metis prod.collapse)
  have d: "isoformat (ds_start roundtrip_summary) = ''2024-01-01''"
    by (simp add: run_defs)
  have "referential_integrity empty_store" and "summaries empty_store = Some []"
    by (simp_all add: referential_integrity_def empty_store_def)
  from save_then_fetch_by_start_date [OF 2 this]
  obtain prods
    where "fetch_by_start_date ''2024-01-01'' st2 =
             (Inr (Some (StoredSummary_of (header_row 1 example_clock roundtrip_summary) prods)), st2)"
      and r: "revenue_descending prods"
    by (auto simp: d)
  with roundtrip_fetch 2
  have "prods = [written_item (example_product ''P1'' 600), written_item (example_product ''P2'' 400)]"
    by (simp add: StoredSummary_of_def)
  with r roundtrip_fetch roundtrip_save_key d show ?thesis by simp
qed

text \<open>
  Two product entries with the same identifier: the record read back has one line-item,
  that of the second entry.
\<close>

theorem save_then_fetch_duplicate_identifier:
  "fst (save_summary None example_clock duplicate_summary empty_store) = Inr 1 \<and>
   map written_item (ds_top_products duplicate_summary) =
     [written_item (example_product ''P1'' 600), written_item (example_product ''P1'' 400)] \<and>
   fetch_by_start_date (isoformat (ds_start duplicate_summary))
     (snd (save_summary None example_clock duplicate_summary empty_store)) =
   (Inr (Some (StoredSummary_of (header_row 1 example_clock duplicate_summary)
      [written_item (example_product ''P1'' 400)])),
    snd (save_summary None example_clock duplicate_summary empty_store))"
  by (simp add: run_defs fetch_defs)


text \<open>
  A buy-box percentage that is NaN: the line-item is read back without one.
\<close>

lemma nan_buy_box_read_back_absent:
  "fetch_by_start_date ''2024-01-01''
     (snd (save_summary None example_clock
        (example_summary [(example_product ''P1'' 600)\<lparr>pp_buy_box_percentage := Some NaN\<rparr>])
        empty_store)) =
   (Inr (Some (StoredSummary_of
      (header_row 1 example_clock (example_summary []))
      [(written_item (example_product ''P1'' 600))\<lparr>sp_buy_box_percentage := None\<rparr>])),
    snd (save_summary None example_clock
        (example_summary [(example_product ''P1'' 600)\<lparr>pp_buy_box_percentage := Some NaN\<rparr>])
        empty_store))"
  by (simp add: run_defs fetch_defs)


subsection \<open>Replacing and deleting\<close>



text \<open>What \<open>initialize\<close> stores as the definition of the products table it creates.\<close>

lemma initialize_declares_cascade:
  "products (snd (initialize True blank_store)) = Some [] \<and>
   products_on_delete (snd (initialize True blank_store)) = Cascade"
  by (simp add: initialize_eq blank_store_def create_summaries_def create_products_def)

text \<open>
  C8. Take a store whose products table is defined as \<open>initialize\<close> defines it, and
  a connection that has issued \<open>PRAGMA foreign_keys = ON\<close> outside a transaction,
  as \<open>initialize\<close> does on its own. Deleting a stored header row on that connection
  succeeds and removes every line-item of the header's key, and only those: afterwards
  no header has the key and the query for the line-items of the key returns no row.
\<close>

theorem delete_from_summaries_cascades:
  assumes "as_initialize_declares st"
    and "summaries st = Some hs" and "products st = Some ps" and "k \<in> s_id ` set hs"
    and "\<not> in_transaction c"
  shows "\<exists>st'. delete_from_summaries k (foreign_keys (pragma_foreign_keys_on c)) st =
                 Inr ((), st') \<and>
           summaries st' = Some (filter (\<lambda>h. s_id h \<noteq> k) hs) \<and>
           products st' = Some (filter (\<lambda>r. p_summary_id r \<noteq> k) ps) \<and>
           \<not> has_summary st' k \<and>
           select_products k st' = Inr []"
proof -
  have fk: "foreign_keys (pragma_foreign_keys_on c)"
    using assms(5) by (simp add: pragma_foreign_keys_on_def)
  have cascade: "products_on_delete st = Cascade"
    using assms(1) initialize_declares_cascade by (simp add: as_initialize_declares_def)
  let ?st' = "st\<lparr>summaries := Some (filter (\<lambda>h. s_id h \<noteq> k) hs),
                  products := Some (filter (\<lambda>r. p_summary_id r \<noteq> k) ps)\<rparr>"
  have "delete_from_summaries k (foreign_keys (pragma_foreign_keys_on c)) st = Inr ((), ?st')"
  proof (cases "filter (\<lambda>p. p_summary_id p = k) ps = []")
    case True
    then have "filter (\<lambda>r. p_summary_id r \<noteq> k) ps = ps"
      by (simp add: filter_empty_conv filter_id_conv)
    then have "?st' = st\<lparr>summaries := Some (filter (\<lambda>h. s_id h \<noteq> k) hs)\<rparr>"
      using assms(3) by simp
    then show ?thesis
      using assms(2,3) True by (simp add: delete_from_summaries_def Let_def)
  next
    case False
    then show ?thesis
      using assms(2,3,4) fk cascade by (simp add: delete_from_summaries_def Let_def)
  qed
  moreover have "\<not> has_summary ?st' k"
    by (auto simp: has_summary_def)
  moreover have "filter (\<lambda>r. p_summary_id r = k) (filter (\<lambda>r. p_summary_id r \<noteq> k) ps) = []"
    by (simp add: filter_empty_conv)
  then have "select_products k ?st' = Inr []"
    by (simp add: select_products_def order_by_desc_Nil)
  ultimately show ?thesis by simp
qed

theorem delete_from_summaries_cascades_witness:
  "as_initialize_declares example_store \<and>
   (\<exists>st'. delete_from_summaries 1
            (foreign_keys (pragma_foreign_keys_on (fresh_connection None example_store)))
            example_store = Inr ((), st') \<and>
          products st' = Some [example_line 3 3 ''P2'' 400, example_line 4 3 ''P1'' 600] \<and>
          select_products 1 st' = Inr [])"
proof -
  have d: "as_initialize_declares example_store"
    using initialize_declares_cascade
    by (simp add: as_initialize_declares_def example_store_def)
  have "summaries example_store = Some example_headers"
    and "products example_store = Some example_lines"
    and "1 \<in> s_id ` set example_headers"
    and "\<not> in_transaction (fresh_connection None example_store)"
    by (simp_all add: example_store_def example_headers_def example_header_def
        fresh_connection_def)
  from delete_from_summaries_cascades [OF d this] d
  show ?thesis
    by (auto simp: example_lines_def example_line_def)
qed

subsection \<open>Stores that the repository builds\<close>

text \<open>
  The stores of the properties above are reached by the repository itself:
  \<open>initialize\<close> leaves a store with both tables, and \<open>save_summary\<close>, which runs
  with foreign keys enforced, keeps both tables and their definition and never leaves a
  line-item without its header.
\<close>

lemma initialized_empty_store: "initialized empty_store \<and> referential_integrity empty_store"
  by (simp add: initialized_def referential_integrity_def empty_store_def)

lemma save_summary_keeps_initialized:
  assumes "initialized st"
  shows "initialized (snd (save_summary budget now s st))"
proof (cases "save_summary budget now s st")
  case (Pair r st')
  show ?thesis
  proof (cases r)
    case (Inl e)
    with Pair assms save_summary_Inl [of budget now s st e st'] show ?thesis by simp
  next
    case (Inr k)
    with Pair save_summary_Inr [of budget now s st k st'] show ?thesis
      by (auto simp: initialized_def)
  qed
qed

lemma save_summary_keeps_integrity:
  assumes "referential_integrity st"
  shows "referential_integrity (snd (save_summary budget now s st))"
proof (cases "save_summary budget now s st")
  case (Pair r st')
  show ?thesis
  proof (cases r)
    case (Inl e)
    with Pair assms save_summary_Inl [of budget now s st e st'] show ?thesis by simp
  next
    case (Inr k)
    let ?rows = "map (stored_row k) (ds_top_products s)"
    from Pair Inr save_summary_Inr [of budget now s st k st']
    obtain hs ps new kp
      where hs: "summaries st = Some hs" and ps: "products st = Some ps"
        and new: "map params_of new = last_wins ?rows"
        and st': "st' = st\<lparr>summaries := Some (hs @ [header_row k now s]), seq_summaries := k,
                     products := Some (filter (\<lambda>r. stored_key r \<notin> row_key ` set ?rows) ps @ new),
                     seq_products := kp\<rparr>"
      by auto
    have old: "p_summary_id r \<in> s_id ` set hs" if "r \<in> set ps" for r
      using assms hs ps that
      by (auto simp: referential_integrity_def has_summary_def list_all_iff)
    have mine: "p_summary_id r = k" if "r \<in> set new" for r
    proof -
      from that have "row_key (params_of r) \<in> row_key ` set (map params_of new)" by simp
      then have "stored_key r \<in> row_key ` set ?rows"
        by (simp only: new row_key_last_wins stored_key_params_of)
      then show ?thesis by (auto simp: stored_key_def row_key_stored_row)
    qed
    have "list_all (\<lambda>r. has_summary st' (p_summary_id r))
            (filter (\<lambda>r. stored_key r \<notin> row_key ` set ?rows) ps @ new)"
      unfolding list_all_iff
    proof
      fix r
      assume "r \<in> set (filter (\<lambda>r. stored_key r \<notin> row_key ` set ?rows) ps @ new)"
      then have "r \<in> set ps \<or> r \<in> set new" by auto
      then show "has_summary st' (p_summary_id r)"
        using old mine by (auto simp: st' has_summary_def header_row_def)
    qed
    then have "referential_integrity st'"
      unfolding referential_integrity_def st' by simp
    with Pair show ?thesis by simp
  qed
qed

lemma save_summary_keeps_declaration:
  assumes "as_initialize_declares st"
  shows "as_initialize_declares (snd (save_summary budget now s st))"
proof (cases "save_summary budget now s st")
  case (Pair r st')
  show ?thesis
  proof (cases r)
    case (Inl e)
    with Pair assms save_summary_Inl [of budget now s st e st'] show ?thesis by simp
  next
    case (Inr k)
    with Pair assms save_summary_Inr [of budget now s st k st'] show ?thesis
      by (auto simp: as_initialize_declares_def)
  qed
qed

subsection \<open>Start dates as stored\<close>

text \<open>
  The summaries table orders and matches start dates as the strings that
  \<open>save_summary\<close> stores. For dates in ISO format that order is the calendar order.
\<close>

lemma below_ten:
  fixes k :: nat
  assumes "k < 10"
  shows "k = 0 \<or> k = 1 \<or> k = 2 \<or> k = 3 \<or> k = 4 \<or> k = 5 \<or> k = 6 \<or> k = 7 \<or> k = 8 \<or> k = 9"
  using assms by arith

lemma of_char_digit_char: "of_char (digit_char n) = (48 + n mod 10 :: nat)"
proof -
  have "n mod 10 < 10" by simp
  from below_ten [OF this] show ?thesis
    by (elim disjE) (simp_all add: digit_char_def)
qed

lemma digit_char_less: "digit_char a < digit_char b \<longleftrightarrow> a mod 10 < b mod 10"
  by (simp add: less_char_def of_char_digit_char)

lemma digit_char_eq: "digit_char a = digit_char b \<longleftrightarrow> a mod 10 = b mod 10"
proof
  assume "digit_char a = digit_char b"
  then have "(of_char (digit_char a) :: nat) = of_char (digit_char b)" by simp
  then show "a mod 10 = b mod 10" by (simp add: of_char_digit_char)
next
  assume "a mod 10 = b mod 10"
  then show "digit_char a = digit_char b" by (simp add: digit_char_def)
qed

lemma lex_pair:
  fixes a b c d :: nat
  assumes "b < k" "d < k"
  shows "(a < c \<or> a = c \<and> b < d) \<longleftrightarrow> k * a + b < k * c + d"
proof
  assume "a < c \<or> a = c \<and> b < d"
  then show "k * a + b < k * c + d"
  proof
    assume "a < c"
    then have "Suc a \<le> c" by simp
    then have "k * Suc a \<le> k * c" by (rule mult_le_mono2)
    then have "k * a + k \<le> k * c" by simp
    with assms show ?thesis by linarith
  next
    assume "a = c \<and> b < d"
    then show ?thesis by simp
  qed
next
  assume l: "k * a + b < k * c + d"
  show "a < c \<or> a = c \<and> b < d"
  proof (cases "a < c")
    case True
    then show ?thesis by simp
  next
    case False
    then have "c \<le> a" by simp
    then have "k * c \<le> k * a" by (rule mult_le_mono2)
    with l have "b < d" by linarith
    moreover have "a = c"
    proof (rule ccontr)
      assume "a \<noteq> c"
      with \<open>c \<le> a\<close> have "Suc c \<le> a" by simp
      then have "k * Suc c \<le> k * a" by (rule mult_le_mono2)
      then have "k * c + k \<le> k * a" by simp
      with l assms show False by linarith
    qed
    ultimately show ?thesis by simp
  qed
qed

lemma lex_div_mod:
  fixes n m :: nat
  assumes "0 < k"
  shows "(n div k < m div k \<or> n div k = m div k \<and> n mod k < m mod k) \<longleftrightarrow> n < m"
  using lex_pair [of "n mod k" k "m mod k" "n div k" "m div k"] assms
  by simp

lemma eq_div_mod:
  fixes n m :: nat
  shows "(n div k = m div k \<and> n mod k = m mod k) \<longleftrightarrow> n = m"
  by (metis div_mult_mod_eq)

lemma two_digits_less:
  "([digit_char (n div 10), digit_char n] @ xs < [digit_char (m div 10), digit_char m] @ ys)
     \<longleftrightarrow> (n mod 100 < m mod 100 \<or> n mod 100 = m mod 100 \<and> xs < ys)"
proof -
  have tens: "n mod 100 div 10 = n div 10 mod 10" "m mod 100 div 10 = m div 10 mod 10"
    using mod_mult2_eq [of n 10 10] mod_mult2_eq [of m 10 10] by simp_all
  have ones: "n mod 100 mod 10 = n mod 10" "m mod 100 mod 10 = m mod 10"
    by (simp_all add: mod_mod_cancel)
  have less: "(n div 10 mod 10 < m div 10 mod 10 \<or>
               n div 10 mod 10 = m div 10 mod 10 \<and> n mod 10 < m mod 10) \<longleftrightarrow>
              n mod 100 < m mod 100"
    using lex_div_mod [of 10 "n mod 100" "m mod 100"] by (simp add: tens ones)
  have eq: "(n div 10 mod 10 = m div 10 mod 10 \<and> n mod 10 = m mod 10) \<longleftrightarrow>
            n mod 100 = m mod 100"
    using eq_div_mod [of "n mod 100" 10 "m mod 100"] by (simp only: tens ones)
  have "([digit_char (n div 10), digit_char n] @ xs < [digit_char (m div 10), digit_char m] @ ys)
     \<longleftrightarrow> (n div 10 mod 10 < m div 10 mod 10 \<or> n div 10 mod 10 = m div 10 mod 10 \<and>
          (n mod 10 < m mod 10 \<or> n mod 10 = m mod 10 \<and> xs < ys))"
    by (simp add: digit_char_less digit_char_eq)
  also have "\<dots> \<longleftrightarrow> (n mod 100 < m mod 100 \<or> n mod 100 = m mod 100 \<and> xs < ys)"
    using less eq by blast
  finally show ?thesis .
qed

lemma four_digits_less:
  assumes "n < 10000" and "m < 10000"
  shows "([digit_char (n div 1000), digit_char (n div 100), digit_char (n div 10), digit_char n] @ xs
          < [digit_char (m div 1000), digit_char (m div 100), digit_char (m div 10), digit_char m] @ ys)
     \<longleftrightarrow> (n < m \<or> n = m \<and> xs < ys)"
proof -
  have hi: "n div 100 mod 100 = n div 100" "m div 100 mod 100 = m div 100"
    using assms by simp_all
  have th: "n div 1000 = n div 100 div 10" "m div 1000 = m div 100 div 10"
    by (simp_all add: div_mult2_eq [symmetric])
  have "([digit_char (n div 1000), digit_char (n div 100), digit_char (n div 10), digit_char n] @ xs
          < [digit_char (m div 1000), digit_char (m div 100), digit_char (m div 10), digit_char m] @ ys)
      \<longleftrightarrow> ([digit_char (n div 100 div 10), digit_char (n div 100)] @
            ([digit_char (n div 10), digit_char n] @ xs)
          < [digit_char (m div 100 div 10), digit_char (m div 100)] @
            ([digit_char (m div 10), digit_char m] @ ys))"
    by (simp only: th append_Cons append_Nil)
  also have "\<dots> \<longleftrightarrow> (n div 100 < m div 100 \<or> n div 100 = m div 100 \<and>
       (n mod 100 < m mod 100 \<or> n mod 100 = m mod 100 \<and> xs < ys))"
    by (simp only: two_digits_less hi)
  also have "\<dots> \<longleftrightarrow> (n < m \<or> n = m \<and> xs < ys)"
    using lex_div_mod [of 100 n m] eq_div_mod [of n 100 m] by auto
  finally show ?thesis .
qed

lemma dash_less: "(''-'' @ xs < ''-'' @ ys) \<longleftrightarrow> xs < ys"
  by simp

lemma isoformat_less:
  assumes "valid_date d" and "valid_date e"
  shows "isoformat d < isoformat e \<longleftrightarrow>
         (d_year d, d_month d, d_day d) < (d_year e, d_month e, d_day e)"
proof -
  from assms have y: "d_year d < 10000" "d_year e < 10000"
    and m: "d_month d mod 100 = d_month d" "d_month e mod 100 = d_month e"
    and dd: "d_day d mod 100 = d_day d" "d_day e mod 100 = d_day e"
    by (simp_all add: valid_date_def)
  have "isoformat d < isoformat e \<longleftrightarrow>
     (d_year d < d_year e \<or> d_year d = d_year e \<and>
       (d_month d < d_month e \<or> d_month d = d_month e \<and>
         (d_day d < d_day e \<or> d_day d = d_day e \<and> ([]::string) < [])))"
    unfolding isoformat_def
    by (simp only: four_digits_less [OF y] dash_less two_digits_less m
          two_digits_less [of _ "[]" _ "[]", simplified append_Nil2] dd)
  then show ?thesis by (auto simp: less_prod_def less_eq_prod_def)
qed

end
